theory Spec2Isabelle
  imports Main "HOL-Library.Word"
begin

unbundle bit_operations_syntax

section \<open>Data model\<close>

text \<open>
  The driver of \<^verbatim>\<open>serLCD_cI2C.h\<close> and its implementation file. Arduino's \<^verbatim>\<open>byte\<close> is an
  unsigned 8-bit value.
\<close>

type_synonym byte = "8 word"

text \<open>\<^verbatim>\<open>SPISettings(clock, bitOrder, dataMode)\<close>; the bit order is \<open>True\<close> for MSBFIRST.\<close>

datatype SPISettings = SPISettings nat bool nat

text \<open>
  Everything the driver does to the outside world is a call into the I2C, SPI, Stream or
  Arduino core libraries. Each such call is recorded, in order, as one event. The I2C calls
  carry the answer of the library: \<open>True\<close> when the returned status is
  \<^verbatim>\<open>I2C_STATUS_OK\<close>. \<open>DigitalWrite pin True\<close> writes HIGH.
\<close>

datatype event =
    I2C_beginTransmission byte bool
  | I2C_transmit byte bool
  | I2C_endTransmission bool
  | SPI_begin
  | SPI_beginTransaction SPISettings
  | SPI_transfer byte
  | SPI_endTransaction
  | Serial_write byte
  | PinMode byte
  | DigitalWrite byte bool
  | Delay nat

text \<open>
  The private fields of \<^verbatim>\<open>class SerLCD\<close>. A port field is \<open>True\<close> when the pointer is
  not NULL. The last three fields are the environment: \<open>i2cStatus n\<close> tells whether the
  \<open>n\<close>-th call into the I2C library answers \<^verbatim>\<open>I2C_STATUS_OK\<close> (the library is not part
  of the sources, so its answers are a parameter), \<open>i2cCalls\<close> counts those calls, and
  \<open>trace\<close> is the list of events so far.
\<close>

record lcd =
  i2cPort :: bool
  serialPort :: bool
  spiPort :: bool
  spiSettings :: SPISettings
  spiTransaction :: bool
  csPin :: byte
  i2cAddr :: byte
  displayControl :: byte
  displayMode :: byte
  i2cStatus :: "nat \<Rightarrow> bool"
  i2cCalls :: nat
  trace :: "event list"

subsection \<open>The constants of the header\<close>

abbreviation (input) DISPLAY_ADDRESS1 :: byte where "DISPLAY_ADDRESS1 \<equiv> 0x72"
abbreviation (input) MAX_ROWS :: int where "MAX_ROWS \<equiv> 4"
abbreviation (input) SPECIAL_COMMAND :: byte where "SPECIAL_COMMAND \<equiv> 254"
abbreviation (input) SETTING_COMMAND :: byte where "SETTING_COMMAND \<equiv> 0x7C"
abbreviation (input) CLEAR_COMMAND :: byte where "CLEAR_COMMAND \<equiv> 0x2D"
abbreviation (input) CONTRAST_COMMAND :: byte where "CONTRAST_COMMAND \<equiv> 0x18"
abbreviation (input) ADDRESS_COMMAND :: byte where "ADDRESS_COMMAND \<equiv> 0x19"
abbreviation (input) SET_RGB_COMMAND :: byte where "SET_RGB_COMMAND \<equiv> 0x2B"
abbreviation (input) LCD_RETURNHOME :: byte where "LCD_RETURNHOME \<equiv> 0x02"
abbreviation (input) LCD_ENTRYMODESET :: byte where "LCD_ENTRYMODESET \<equiv> 0x04"
abbreviation (input) LCD_DISPLAYCONTROL :: byte where "LCD_DISPLAYCONTROL \<equiv> 0x08"
abbreviation (input) LCD_CURSORSHIFT :: byte where "LCD_CURSORSHIFT \<equiv> 0x10"
abbreviation (input) LCD_SETDDRAMADDR :: int where "LCD_SETDDRAMADDR \<equiv> 0x80"
abbreviation (input) LCD_ENTRYLEFT :: byte where "LCD_ENTRYLEFT \<equiv> 0x02"
abbreviation (input) LCD_ENTRYSHIFTINCREMENT :: byte where "LCD_ENTRYSHIFTINCREMENT \<equiv> 0x01"
abbreviation (input) LCD_ENTRYSHIFTDECREMENT :: byte where "LCD_ENTRYSHIFTDECREMENT \<equiv> 0x00"
abbreviation (input) LCD_DISPLAYON :: byte where "LCD_DISPLAYON \<equiv> 0x04"
abbreviation (input) LCD_CURSORON :: byte where "LCD_CURSORON \<equiv> 0x02"
abbreviation (input) LCD_CURSOROFF :: byte where "LCD_CURSOROFF \<equiv> 0x00"
abbreviation (input) LCD_BLINKON :: byte where "LCD_BLINKON \<equiv> 0x01"
abbreviation (input) LCD_BLINKOFF :: byte where "LCD_BLINKOFF \<equiv> 0x00"
abbreviation (input) LCD_DISPLAYMOVE :: byte where "LCD_DISPLAYMOVE \<equiv> 0x08"
abbreviation (input) LCD_CURSORMOVE :: byte where "LCD_CURSORMOVE \<equiv> 0x00"
abbreviation (input) LCD_MOVERIGHT :: byte where "LCD_MOVERIGHT \<equiv> 0x04"
abbreviation (input) LCD_MOVELEFT :: byte where "LCD_MOVELEFT \<equiv> 0x00"

text \<open>
  The object after \<^verbatim>\<open>SerLCD::SerLCD()\<close>: the default member initialisers of the header. The
  answers of the I2C library are the argument.
\<close>

definition SerLCD :: "(nat \<Rightarrow> bool) \<Rightarrow> lcd" where
  "SerLCD bus =
     \<lparr> i2cPort = False, serialPort = False, spiPort = False,
       spiSettings = SPISettings 100000 True 0, spiTransaction = False,
       csPin = 10, i2cAddr = DISPLAY_ADDRESS1,
       displayControl = LCD_DISPLAYON OR LCD_CURSOROFF OR LCD_BLINKOFF,
       displayMode = LCD_ENTRYLEFT OR LCD_ENTRYSHIFTDECREMENT,
       i2cStatus = bus, i2cCalls = 0, trace = [] \<rparr>"

section \<open>The transport primitives\<close>

definition emit :: "event \<Rightarrow> lcd \<Rightarrow> lcd" where
  "emit e s = s\<lparr>trace := trace s @ [e]\<rparr>"

definition delay :: "nat \<Rightarrow> lcd \<Rightarrow> lcd" where
  "delay n s = emit (Delay n) s"

text \<open>
  One call into the I2C library: the answer is read from the environment, the call is
  counted and recorded with its answer. The result is the value of the comparison
  \<^verbatim>\<open>... == I2C_STATUS_OK\<close>.
\<close>

definition i2c_call :: "(bool \<Rightarrow> event) \<Rightarrow> lcd \<Rightarrow> bool \<times> lcd" where
  "i2c_call ev s =
     (let ok = i2cStatus s (i2cCalls s)
      in (ok, s\<lparr>i2cCalls := Suc (i2cCalls s), trace := trace s @ [ev ok]\<rparr>))"

text \<open>
  The three private functions are declared \<^verbatim>\<open>bool\<close>. A result \<open>Some b\<close> is the value of a
  \<^verbatim>\<open>return\<close> statement. \<open>None\<close> is the case where control reaches the closing brace of
  the function without meeting a \<^verbatim>\<open>return\<close>: the source then gives the caller no value.
\<close>

definition beginTransmission :: "lcd \<Rightarrow> bool option \<times> lcd" where
  "beginTransmission s =
     (if i2cPort s then
        (case i2c_call (I2C_beginTransmission (i2cAddr s)) s of
           (ok, s') \<Rightarrow> if ok then (Some True, s') else (Some False, s'))
      else if spiPort s then
        (let s1 = (if spiTransaction s then emit (SPI_beginTransaction (spiSettings s)) s else s);
             s2 = emit (DigitalWrite (csPin s1) False) s1;
             s3 = delay 10 s2
         in (Some True, s3))
      else (None, s))"

definition transmit :: "byte \<Rightarrow> lcd \<Rightarrow> bool option \<times> lcd" where
  "transmit data s =
     (if i2cPort s then
        (case i2c_call (I2C_transmit data) s of
           (ok, s') \<Rightarrow> if ok then (Some True, s') else (Some False, s'))
      else if serialPort s then (Some True, emit (Serial_write data) s)
      else if spiPort s then (Some True, emit (SPI_transfer data) s)
      else (None, s))"

definition endTransmission :: "lcd \<Rightarrow> bool option \<times> lcd" where
  "endTransmission s =
     (if i2cPort s then
        (case i2c_call I2C_endTransmission s of
           (ok, s') \<Rightarrow> if ok then (Some True, s') else (Some False, s'))
      else if spiPort s then
        (let s1 = emit (DigitalWrite (csPin s) True) s;
             s2 = (if spiTransaction s1 then emit SPI_endTransaction s1 else s1);
             s3 = delay 10 s2
         in (Some True, s3))
      else (None, s))"

text \<open>
  A chain \<^verbatim>\<open>a() && b() && ...\<close>: the operands run from left to right and the first one that
  is not true ends the chain. An operand that gave no value ends it with no value.
\<close>

fun and_chain :: "(lcd \<Rightarrow> bool option \<times> lcd) list \<Rightarrow> lcd \<Rightarrow> bool option \<times> lcd" where
  "and_chain [] s = (Some True, s)"
| "and_chain (f # fs) s =
     (case f s of
        (Some True, s') \<Rightarrow> and_chain fs s'
      | (Some False, s') \<Rightarrow> (Some False, s')
      | (None, s') \<Rightarrow> (None, s'))"

section \<open>The command framer\<close>

definition init :: "lcd \<Rightarrow> bool option \<times> lcd" where
  "init s =
     (case and_chain
        [beginTransmission,
         transmit SPECIAL_COMMAND,
         transmit (LCD_DISPLAYCONTROL OR displayControl s),
         transmit SPECIAL_COMMAND,
         transmit (LCD_ENTRYMODESET OR displayMode s),
         transmit SETTING_COMMAND,
         transmit CLEAR_COMMAND,
         endTransmission] s of
        (Some True, s') \<Rightarrow> (Some True, delay 50 s')
      | (Some False, s') \<Rightarrow> (Some False, s')
      | (None, s') \<Rightarrow> (None, s'))"

definition command :: "byte \<Rightarrow> lcd \<Rightarrow> bool option \<times> lcd" where
  "command c s =
     (case and_chain
        [beginTransmission,
         transmit SETTING_COMMAND,
         transmit c,
         endTransmission] s of
        (Some True, s') \<Rightarrow> (Some True, delay 10 s')
      | (Some False, s') \<Rightarrow> (Some False, s')
      | (None, s') \<Rightarrow> (None, s'))"

definition specialCommand :: "byte \<Rightarrow> lcd \<Rightarrow> bool option \<times> lcd" where
  "specialCommand c s =
     (case and_chain
        [beginTransmission,
         transmit SPECIAL_COMMAND,
         transmit c,
         endTransmission] s of
        (Some True, s') \<Rightarrow> (Some True, delay 50 s')
      | (Some False, s') \<Rightarrow> (Some False, s')
      | (None, s') \<Rightarrow> (None, s'))"

text \<open>
  The loop of \<^verbatim>\<open>specialCommand(byte command, byte count)\<close>, on the number of rounds left:
  \<^verbatim>\<open>if (!transmit(SPECIAL_COMMAND) || !transmit(command)) return false;\<close>. The result
  \<open>Some True\<close> means that the loop ran to its end.
\<close>

fun specialCommand_loop :: "nat \<Rightarrow> byte \<Rightarrow> lcd \<Rightarrow> bool option \<times> lcd" where
  "specialCommand_loop 0 c s = (Some True, s)"
| "specialCommand_loop (Suc n) c s =
     (case and_chain [transmit SPECIAL_COMMAND, transmit c] s of
        (Some True, s') \<Rightarrow> specialCommand_loop n c s'
      | (Some False, s') \<Rightarrow> (Some False, s')
      | (None, s') \<Rightarrow> (None, s'))"

definition specialCommand_count :: "byte \<Rightarrow> byte \<Rightarrow> lcd \<Rightarrow> bool option \<times> lcd" where
  "specialCommand_count c count s =
     (case beginTransmission s of
        (Some True, s1) \<Rightarrow>
          (case specialCommand_loop (unat count) c s1 of
             (Some True, s2) \<Rightarrow>
               (case endTransmission s2 of
                  (Some True, s3) \<Rightarrow> (Some True, delay 50 s3)
                | (Some False, s3) \<Rightarrow> (Some False, s3)
                | (None, s3) \<Rightarrow> (None, s3))
           | (Some False, s2) \<Rightarrow> (Some False, s2)
           | (None, s2) \<Rightarrow> (None, s2))
      | (Some False, s1) \<Rightarrow> (Some False, s1)
      | (None, s1) \<Rightarrow> (None, s1))"

definition clear :: "lcd \<Rightarrow> bool option \<times> lcd" where
  "clear s =
     (case command CLEAR_COMMAND s of
        (Some True, s') \<Rightarrow> (Some True, delay 10 s')
      | (Some False, s') \<Rightarrow> (Some False, s')
      | (None, s') \<Rightarrow> (None, s'))"

definition home :: "lcd \<Rightarrow> bool option \<times> lcd" where
  "home s = specialCommand LCD_RETURNHOME s"

section \<open>The stateful operations\<close>

subsection \<open>Cursor positioning\<close>

definition row_offsets :: "int list" where
  "row_offsets = [0x00, 0x40, 0x14, 0x54]"

text \<open>
  \<^verbatim>\<open>row = max(0, row); row = min(row, MAX_ROWS-1);\<close> are computed on \<^verbatim>\<open>int\<close> and stored
  back into the \<^verbatim>\<open>byte\<close>; the command is computed on \<^verbatim>\<open>int\<close> and cut to a \<^verbatim>\<open>byte\<close>
  when it is passed on. A read outside the table would have no defined value.
\<close>

definition setCursor :: "byte \<Rightarrow> byte \<Rightarrow> lcd \<Rightarrow> bool option \<times> lcd" where
  "setCursor col row s =
     (let row1 = (word_of_int (max 0 (uint row)) :: byte);
          row2 = (word_of_int (min (uint row1) (MAX_ROWS - 1)) :: byte)
      in if unat row2 < length row_offsets
         then specialCommand
                (word_of_int (LCD_SETDDRAMADDR OR (uint col + row_offsets ! unat row2))) s
         else (None, s))"

subsection \<open>Custom glyphs\<close>

text \<open>
  The loop \<^verbatim>\<open>for (int i = 0; i < 8; i++) if (!transmit(charmap[i])) return false;\<close> on
  the number of rounds left and the index \<open>i\<close>. The array is a list; reading past its end
  has no defined value.
\<close>

fun createChar_loop :: "nat \<Rightarrow> nat \<Rightarrow> byte list \<Rightarrow> lcd \<Rightarrow> bool option \<times> lcd" where
  "createChar_loop 0 i charmap s = (Some True, s)"
| "createChar_loop (Suc n) i charmap s =
     (if i < length charmap then
        (case transmit (charmap ! i) s of
           (Some True, s') \<Rightarrow> createChar_loop n (Suc i) charmap s'
         | (Some False, s') \<Rightarrow> (Some False, s')
         | (None, s') \<Rightarrow> (None, s'))
      else (None, s))"

definition createChar :: "byte \<Rightarrow> byte list \<Rightarrow> lcd \<Rightarrow> bool option \<times> lcd" where
  "createChar location charmap s =
     (let location = location AND 0x7 in
      case beginTransmission s of
        (Some True, s1) \<Rightarrow>
          (case and_chain [transmit SETTING_COMMAND, transmit (27 + location)] s1 of
             (Some True, s2) \<Rightarrow>
               (case createChar_loop 8 0 charmap s2 of
                  (Some True, s3) \<Rightarrow>
                    (case endTransmission s3 of
                       (Some True, s4) \<Rightarrow> (Some True, delay 50 s4)
                     | (Some False, s4) \<Rightarrow> (Some False, s4)
                     | (None, s4) \<Rightarrow> (None, s4))
                | (Some False, s3) \<Rightarrow> (Some False, s3)
                | (None, s3) \<Rightarrow> (None, s3))
           | (Some False, s2) \<Rightarrow> (Some False, s2)
           | (None, s2) \<Rightarrow> (None, s2))
      | (Some False, s1) \<Rightarrow> (Some False, s1)
      | (None, s1) \<Rightarrow> (None, s1))"

definition writeChar :: "byte \<Rightarrow> lcd \<Rightarrow> bool option \<times> lcd" where
  "writeChar location s = command (35 + (location AND 0x7)) s"

subsection \<open>Raw output\<close>

text \<open>
  The three \<^verbatim>\<open>write\<close> overloads ignore what the primitives return.
  \<^verbatim>\<open>write(uint8_t)\<close> is declared \<^verbatim>\<open>size_t\<close> and has no \<^verbatim>\<open>return\<close> statement.
\<close>

definition write_byte :: "byte \<Rightarrow> lcd \<Rightarrow> nat option \<times> lcd" where
  "write_byte b s =
     (let s1 = snd (beginTransmission s);
          s2 = snd (transmit b s1);
          s3 = snd (endTransmission s2);
          s4 = delay 10 s3
      in (None, s4))"

text \<open>
  \<^verbatim>\<open>while (size--) { transmit(*buffer++); n++; }\<close> on the value \<open>sz\<close> of \<^verbatim>\<open>size\<close>, the
  rest of the buffer and \<open>n\<close>. Reading past the end of the buffer has no defined value.
\<close>

fun write_loop :: "nat \<Rightarrow> byte list \<Rightarrow> nat \<Rightarrow> lcd \<Rightarrow> nat option \<times> lcd" where
  "write_loop 0 buffer n s = (Some n, s)"
| "write_loop (Suc sz) [] n s = (None, s)"
| "write_loop (Suc sz) (b # buffer) n s = write_loop sz buffer (Suc n) (snd (transmit b s))"

definition write_buffer :: "byte list \<Rightarrow> nat \<Rightarrow> lcd \<Rightarrow> nat option \<times> lcd" where
  "write_buffer buffer sz s =
     (let s1 = snd (beginTransmission s) in
      case write_loop sz buffer 0 s1 of
        (Some n, s2) \<Rightarrow>
          (let s3 = snd (endTransmission s2);
               s4 = delay 10 s3
           in (Some n, s4))
      | (None, s2) \<Rightarrow> (None, s2))"

text \<open>
  \<^verbatim>\<open>write(const char *str)\<close>: \<open>None\<close> is the NULL pointer, \<open>Some cs\<close> a string whose
  characters before the terminating zero are \<open>cs\<close>, so that \<^verbatim>\<open>strlen(str)\<close> is
  \<open>length cs\<close>.
\<close>

definition write_str :: "byte list option \<Rightarrow> lcd \<Rightarrow> nat option \<times> lcd" where
  "write_str str s =
     (case str of
        None \<Rightarrow> (Some 0, s)
      | Some cs \<Rightarrow> write_buffer cs (length cs) s)"

subsection \<open>Display control flags\<close>

text \<open>
  \<^verbatim>\<open>_displayControl &= ~LCD_DISPLAYON\<close> is computed on \<^verbatim>\<open>int\<close> and stored into the
  \<^verbatim>\<open>byte\<close>, which keeps the low eight bits: the conjunction with the complement on bytes.
  \<^verbatim>\<open>LCD_DISPLAYCONTROL | _displayControl\<close> is below 256 and is passed as a \<^verbatim>\<open>byte\<close>.
\<close>

definition noDisplay :: "lcd \<Rightarrow> bool option \<times> lcd" where
  "noDisplay s =
     (let s1 = s\<lparr>displayControl := displayControl s AND NOT LCD_DISPLAYON\<rparr>
      in specialCommand (LCD_DISPLAYCONTROL OR displayControl s1) s1)"

definition display :: "lcd \<Rightarrow> bool option \<times> lcd" where
  "display s =
     (let s1 = s\<lparr>displayControl := displayControl s OR LCD_DISPLAYON\<rparr>
      in specialCommand (LCD_DISPLAYCONTROL OR displayControl s1) s1)"

definition noCursor :: "lcd \<Rightarrow> bool option \<times> lcd" where
  "noCursor s =
     (let s1 = s\<lparr>displayControl := displayControl s AND NOT LCD_CURSORON\<rparr>
      in specialCommand (LCD_DISPLAYCONTROL OR displayControl s1) s1)"

definition cursor :: "lcd \<Rightarrow> bool option \<times> lcd" where
  "cursor s =
     (let s1 = s\<lparr>displayControl := displayControl s OR LCD_CURSORON\<rparr>
      in specialCommand (LCD_DISPLAYCONTROL OR displayControl s1) s1)"

definition noBlink :: "lcd \<Rightarrow> bool option \<times> lcd" where
  "noBlink s =
     (let s1 = s\<lparr>displayControl := displayControl s AND NOT LCD_BLINKON\<rparr>
      in specialCommand (LCD_DISPLAYCONTROL OR displayControl s1) s1)"

definition blink :: "lcd \<Rightarrow> bool option \<times> lcd" where
  "blink s =
     (let s1 = s\<lparr>displayControl := displayControl s OR LCD_BLINKON\<rparr>
      in specialCommand (LCD_DISPLAYCONTROL OR displayControl s1) s1)"

subsection \<open>Scrolling and cursor movement\<close>

definition scrollDisplayLeft :: "lcd \<Rightarrow> bool option \<times> lcd" where
  "scrollDisplayLeft s = specialCommand (LCD_CURSORSHIFT OR LCD_DISPLAYMOVE OR LCD_MOVELEFT) s"

definition scrollDisplayLeft_count :: "byte \<Rightarrow> lcd \<Rightarrow> bool option \<times> lcd" where
  "scrollDisplayLeft_count count s =
     specialCommand_count (LCD_CURSORSHIFT OR LCD_DISPLAYMOVE OR LCD_MOVELEFT) count s"

definition scrollDisplayRight :: "lcd \<Rightarrow> bool option \<times> lcd" where
  "scrollDisplayRight s = specialCommand (LCD_CURSORSHIFT OR LCD_DISPLAYMOVE OR LCD_MOVERIGHT) s"

definition scrollDisplayRight_count :: "byte \<Rightarrow> lcd \<Rightarrow> bool option \<times> lcd" where
  "scrollDisplayRight_count count s =
     specialCommand_count (LCD_CURSORSHIFT OR LCD_DISPLAYMOVE OR LCD_MOVERIGHT) count s"

definition moveCursorLeft :: "lcd \<Rightarrow> bool option \<times> lcd" where
  "moveCursorLeft s = specialCommand (LCD_CURSORSHIFT OR LCD_CURSORMOVE OR LCD_MOVELEFT) s"

definition moveCursorLeft_count :: "byte \<Rightarrow> lcd \<Rightarrow> bool option \<times> lcd" where
  "moveCursorLeft_count count s =
     specialCommand_count (LCD_CURSORSHIFT OR LCD_CURSORMOVE OR LCD_MOVELEFT) count s"

definition moveCursorRight :: "lcd \<Rightarrow> bool option \<times> lcd" where
  "moveCursorRight s = specialCommand (LCD_CURSORSHIFT OR LCD_CURSORMOVE OR LCD_MOVERIGHT) s"

definition moveCursorRight_count :: "byte \<Rightarrow> lcd \<Rightarrow> bool option \<times> lcd" where
  "moveCursorRight_count count s =
     specialCommand_count (LCD_CURSORSHIFT OR LCD_CURSORMOVE OR LCD_MOVERIGHT) count s"

subsection \<open>Backlight\<close>

text \<open>
  Modelled from the spec: Arduino's \<^verbatim>\<open>map(x, in_min, in_max, out_min, out_max)\<close>, which
  the slow backlight form calls and whose source is not among the files. The specification
  calls it linear scaling of the input range onto the output range; on \<^verbatim>\<open>long\<close> values
  that is the quotient below, cut towards zero as C division is.
\<close>

definition map_range :: "int \<Rightarrow> int \<Rightarrow> int \<Rightarrow> int \<Rightarrow> int \<Rightarrow> int" where
  "map_range x in_min in_max out_min out_max =
     (let num = (x - in_min) * (out_max - out_min); den = in_max - in_min
      in sgn num * sgn den * (\<bar>num\<bar> div \<bar>den\<bar>) + out_min)"

text \<open>The three values \<^verbatim>\<open>byte red = 128 + map(r, 0, 255, 0, 29)\<close> and so on.\<close>

definition red_level :: "byte \<Rightarrow> byte" where
  "red_level r = word_of_int (128 + map_range (uint r) 0 255 0 29)"

definition green_level :: "byte \<Rightarrow> byte" where
  "green_level g = word_of_int (158 + map_range (uint g) 0 255 0 29)"

definition blue_level :: "byte \<Rightarrow> byte" where
  "blue_level b = word_of_int (188 + map_range (uint b) 0 255 0 29)"

definition setBacklight :: "byte \<Rightarrow> byte \<Rightarrow> byte \<Rightarrow> lcd \<Rightarrow> bool option \<times> lcd" where
  "setBacklight r g b s =
     (let red = red_level r; green = green_level g; blue = blue_level b in
      case beginTransmission s of
        (Some True, s1) \<Rightarrow>
          (let s2 = s1\<lparr>displayControl := displayControl s1 AND NOT LCD_DISPLAYON\<rparr> in
           case and_chain
                  [transmit SPECIAL_COMMAND,
                   transmit (LCD_DISPLAYCONTROL OR displayControl s2),
                   transmit SETTING_COMMAND,
                   transmit red,
                   transmit SETTING_COMMAND,
                   transmit green,
                   transmit SETTING_COMMAND,
                   transmit blue] s2 of
             (Some True, s3) \<Rightarrow>
               (let s4 = s3\<lparr>displayControl := displayControl s3 OR LCD_DISPLAYON\<rparr> in
                case and_chain
                       [transmit SPECIAL_COMMAND,
                        transmit (LCD_DISPLAYCONTROL OR displayControl s4),
                        endTransmission] s4 of
                  (Some True, s5) \<Rightarrow> (Some True, delay 50 s5)
                | (Some False, s5) \<Rightarrow> (Some False, s5)
                | (None, s5) \<Rightarrow> (None, s5))
           | (Some False, s3) \<Rightarrow> (Some False, s3)
           | (None, s3) \<Rightarrow> (None, s3))
      | (Some False, s1) \<Rightarrow> (Some False, s1)
      | (None, s1) \<Rightarrow> (None, s1))"

text \<open>\<^verbatim>\<open>unsigned long\<close> is a 32-bit value.\<close>

definition setBacklight_rgb :: "32 word \<Rightarrow> lcd \<Rightarrow> bool option \<times> lcd" where
  "setBacklight_rgb rgb s =
     (let r = (ucast (drop_bit 16 rgb AND 0x0000FF) :: byte);
          g = (ucast (drop_bit 8 rgb AND 0x0000FF) :: byte);
          b = (ucast (rgb AND 0x0000FF) :: byte)
      in setBacklight r g b s)"

definition setFastBacklight :: "byte \<Rightarrow> byte \<Rightarrow> byte \<Rightarrow> lcd \<Rightarrow> bool option \<times> lcd" where
  "setFastBacklight r g b s =
     (case and_chain
        [beginTransmission,
         transmit SETTING_COMMAND,
         transmit SET_RGB_COMMAND,
         transmit r,
         transmit g,
         transmit b,
         endTransmission] s of
        (Some True, s') \<Rightarrow> (Some True, delay 10 s')
      | (Some False, s') \<Rightarrow> (Some False, s')
      | (None, s') \<Rightarrow> (None, s'))"

definition setFastBacklight_rgb :: "32 word \<Rightarrow> lcd \<Rightarrow> bool option \<times> lcd" where
  "setFastBacklight_rgb rgb s =
     (let r = (ucast (drop_bit 16 rgb AND 0x0000FF) :: byte);
          g = (ucast (drop_bit 8 rgb AND 0x0000FF) :: byte);
          b = (ucast (rgb AND 0x0000FF) :: byte)
      in setFastBacklight r g b s)"

subsection \<open>Entry mode flags\<close>

definition leftToRight :: "lcd \<Rightarrow> bool option \<times> lcd" where
  "leftToRight s =
     (let s1 = s\<lparr>displayMode := displayMode s OR LCD_ENTRYLEFT\<rparr>
      in specialCommand (LCD_ENTRYMODESET OR displayMode s1) s1)"

definition rightToLeft :: "lcd \<Rightarrow> bool option \<times> lcd" where
  "rightToLeft s =
     (let s1 = s\<lparr>displayMode := displayMode s AND NOT LCD_ENTRYLEFT\<rparr>
      in specialCommand (LCD_ENTRYMODESET OR displayMode s1) s1)"

definition autoscroll :: "lcd \<Rightarrow> bool option \<times> lcd" where
  "autoscroll s =
     (let s1 = s\<lparr>displayMode := displayMode s OR LCD_ENTRYSHIFTINCREMENT\<rparr>
      in specialCommand (LCD_ENTRYMODESET OR displayMode s1) s1)"

definition noAutoscroll :: "lcd \<Rightarrow> bool option \<times> lcd" where
  "noAutoscroll s =
     (let s1 = s\<lparr>displayMode := displayMode s AND NOT LCD_ENTRYSHIFTINCREMENT\<rparr>
      in specialCommand (LCD_ENTRYMODESET OR displayMode s1) s1)"

subsection \<open>Contrast and address\<close>

definition setContrast :: "byte \<Rightarrow> lcd \<Rightarrow> bool option \<times> lcd" where
  "setContrast new_val s =
     (case and_chain
        [beginTransmission,
         transmit SETTING_COMMAND,
         transmit CONTRAST_COMMAND,
         transmit new_val,
         endTransmission] s of
        (Some True, s') \<Rightarrow> (Some True, delay 10 s')
      | (Some False, s') \<Rightarrow> (Some False, s')
      | (None, s') \<Rightarrow> (None, s'))"

definition setAddress :: "byte \<Rightarrow> lcd \<Rightarrow> bool option \<times> lcd" where
  "setAddress new_addr s =
     (case and_chain
        [beginTransmission,
         transmit SETTING_COMMAND,
         transmit ADDRESS_COMMAND,
         transmit new_addr,
         endTransmission] s of
        (Some True, s') \<Rightarrow> (Some True, delay 50 (s'\<lparr>i2cAddr := new_addr\<rparr>))
      | (Some False, s') \<Rightarrow> (Some False, s')
      | (None, s') \<Rightarrow> (None, s'))"

subsection \<open>Binding a transport\<close>

definition begin_I2C :: "lcd \<Rightarrow> bool option \<times> lcd" where
  "begin_I2C s = init (s\<lparr>i2cPort := True, serialPort := False, spiPort := False\<rparr>)"

definition begin_I2C_addr :: "byte \<Rightarrow> lcd \<Rightarrow> lcd" where
  "begin_I2C_addr i2c_addr s = snd (begin_I2C (s\<lparr>i2cAddr := i2c_addr\<rparr>))"

definition begin_Stream :: "lcd \<Rightarrow> lcd" where
  "begin_Stream s = snd (init (s\<lparr>serialPort := True, i2cPort := False, spiPort := False\<rparr>))"

definition begin_SPI :: "byte \<Rightarrow> lcd \<Rightarrow> lcd" where
  "begin_SPI pin s =
     (let s1 = s\<lparr>csPin := pin\<rparr>;
          s2 = emit (PinMode pin) s1;
          s3 = emit (DigitalWrite pin True) s2;
          s4 = s3\<lparr>spiPort := True, i2cPort := False, serialPort := False\<rparr>;
          s5 = emit SPI_begin s4
      in snd (init s5))"

definition begin_SPI_settings :: "byte \<Rightarrow> SPISettings \<Rightarrow> lcd \<Rightarrow> lcd" where
  "begin_SPI_settings pin settings s =
     begin_SPI pin (s\<lparr>spiSettings := settings, spiTransaction := True\<rparr>)"

section \<open>Vocabulary of the statements\<close>

subsection \<open>Traces\<close>

text \<open>
  The events an operation adds to the trace, and the events that record a transport
  primitive that failed: the I2C calls whose answer is not \<^verbatim>\<open>I2C_STATUS_OK\<close>. The SPI
  and serial calls give no status.
\<close>

definition emitted :: "lcd \<Rightarrow> lcd \<Rightarrow> event list" where
  "emitted s s' = drop (length (trace s)) (trace s')"

fun failed :: "event \<Rightarrow> bool" where
  "failed (I2C_beginTransmission a ok) = (\<not> ok)"
| "failed (I2C_transmit b ok) = (\<not> ok)"
| "failed (I2C_endTransmission ok) = (\<not> ok)"
| "failed e = False"

text \<open>
  \<open>answers s k\<close> is the answer the I2C library will give to the \<open>k\<close>-th call from
  state \<open>s\<close> on, counting from 0.
\<close>

definition answers :: "lcd \<Rightarrow> nat \<Rightarrow> bool" where
  "answers s k = i2cStatus s (i2cCalls s + k)"

text \<open>
  A transport on which every step succeeds: I2C with a library that always answers OK, or
  SPI. On such a transport the three primitives add the events below; \<open>ncalls\<close> is the
  number of I2C calls one primitive makes.
\<close>

definition working :: "lcd \<Rightarrow> bool" where
  "working s \<longleftrightarrow> (i2cPort s \<and> (\<forall>n. i2cStatus s n)) \<or> (\<not> i2cPort s \<and> spiPort s)"

definition frame_open :: "lcd \<Rightarrow> event list" where
  "frame_open s =
     (if i2cPort s then [I2C_beginTransmission (i2cAddr s) True]
      else (if spiTransaction s then [SPI_beginTransaction (spiSettings s)] else [])
           @ [DigitalWrite (csPin s) False, Delay 10])"

definition frame_byte :: "lcd \<Rightarrow> byte \<Rightarrow> event" where
  "frame_byte s b =
     (if i2cPort s then I2C_transmit b True
      else if serialPort s then Serial_write b
      else SPI_transfer b)"

definition frame_close :: "lcd \<Rightarrow> event list" where
  "frame_close s =
     (if i2cPort s then [I2C_endTransmission True]
      else [DigitalWrite (csPin s) True]
           @ (if spiTransaction s then [SPI_endTransaction] else [])
           @ [Delay 10])"

definition ncalls :: "lcd \<Rightarrow> nat" where
  "ncalls s = (if i2cPort s then 1 else 0)"

subsection \<open>Auxiliary notions for the proofs\<close>

text \<open>
  \<open>on_true\<close> names the pattern that every operation is written in: go on when the
  condition is true, stop with its result otherwise. \<open>advance\<close> is a state after some
  more I2C calls and events, \<open>evolves\<close> relates a state to any such later state.
\<close>

definition on_true ::
  "bool option \<times> lcd \<Rightarrow> (lcd \<Rightarrow> bool option \<times> lcd) \<Rightarrow> bool option \<times> lcd" where
  "on_true x G =
     (case x of
        (Some True, s') \<Rightarrow> G s'
      | (Some False, s') \<Rightarrow> (Some False, s')
      | (None, s') \<Rightarrow> (None, s'))"

definition advance :: "nat \<Rightarrow> event list \<Rightarrow> lcd \<Rightarrow> lcd" where
  "advance n es s = s\<lparr>i2cCalls := i2cCalls s + n, trace := trace s @ es\<rparr>"

definition evolves :: "lcd \<Rightarrow> lcd \<Rightarrow> bool" where
  "evolves s s' \<longleftrightarrow> (\<exists>n es. s' = advance n es s)"

text \<open>
  \<open>outcome r es\<close>: the events \<open>es\<close> of an operation fit its result \<open>r\<close>. With the
  result false the last event is a failed primitive and no earlier one failed; otherwise
  no primitive failed. \<open>follows s x\<close>: the result \<open>x\<close> extends the trace of \<open>s\<close> by
  such events.
\<close>

definition outcome :: "bool option \<Rightarrow> event list \<Rightarrow> bool" where
  "outcome r es \<longleftrightarrow>
     (if r = Some False then es \<noteq> [] \<and> failed (last es) \<and> \<not> list_ex failed (butlast es)
      else \<not> list_ex failed es)"

definition follows :: "lcd \<Rightarrow> bool option \<times> lcd \<Rightarrow> bool" where
  "follows s x \<longleftrightarrow> (\<exists>es. trace (snd x) = trace s @ es \<and> outcome (fst x) es)"

subsection \<open>The shadow masks\<close>

text \<open>
  The bits the two masks may hold, and the two masks as a pair.
\<close>

definition shadow_inv :: "lcd \<Rightarrow> bool" where
  "shadow_inv s \<longleftrightarrow> displayControl s AND NOT 0x07 = 0 \<and> displayMode s AND NOT 0x03 = 0"

definition masks :: "lcd \<Rightarrow> byte \<times> byte" where
  "masks s = (displayControl s, displayMode s)"

text \<open>
  The five flags with the operation that sets each (\<open>turn_on\<close>), the operation that
  clears it (\<open>turn_off\<close>), its bit, the base of its special command and the mask it
  lives in.
\<close>

datatype flag = DisplayOn | CursorOn | BlinkOn | EntryLeft | ShiftIncrement

primrec turn_on :: "flag \<Rightarrow> lcd \<Rightarrow> bool option \<times> lcd" where
  "turn_on DisplayOn s = display s"
| "turn_on CursorOn s = cursor s"
| "turn_on BlinkOn s = blink s"
| "turn_on EntryLeft s = leftToRight s"
| "turn_on ShiftIncrement s = autoscroll s"

primrec turn_off :: "flag \<Rightarrow> lcd \<Rightarrow> bool option \<times> lcd" where
  "turn_off DisplayOn s = noDisplay s"
| "turn_off CursorOn s = noCursor s"
| "turn_off BlinkOn s = noBlink s"
| "turn_off EntryLeft s = rightToLeft s"
| "turn_off ShiftIncrement s = noAutoscroll s"

primrec flag_bit :: "flag \<Rightarrow> byte" where
  "flag_bit DisplayOn = LCD_DISPLAYON"
| "flag_bit CursorOn = LCD_CURSORON"
| "flag_bit BlinkOn = LCD_BLINKON"
| "flag_bit EntryLeft = LCD_ENTRYLEFT"
| "flag_bit ShiftIncrement = LCD_ENTRYSHIFTINCREMENT"

primrec flag_base :: "flag \<Rightarrow> byte" where
  "flag_base DisplayOn = LCD_DISPLAYCONTROL"
| "flag_base CursorOn = LCD_DISPLAYCONTROL"
| "flag_base BlinkOn = LCD_DISPLAYCONTROL"
| "flag_base EntryLeft = LCD_ENTRYMODESET"
| "flag_base ShiftIncrement = LCD_ENTRYMODESET"

primrec flag_mask :: "flag \<Rightarrow> lcd \<Rightarrow> byte" where
  "flag_mask DisplayOn s = displayControl s"
| "flag_mask CursorOn s = displayControl s"
| "flag_mask BlinkOn s = displayControl s"
| "flag_mask EntryLeft s = displayMode s"
| "flag_mask ShiftIncrement s = displayMode s"

subsection \<open>Sequences of public operations\<close>

text \<open>
  One constructor for every public member function of the class, with its arguments;
  \<open>exec\<close> runs one call and keeps the object, \<open>run\<close> runs a list of calls in order.
\<close>

datatype operation =
    Begin_I2C
  | Begin_I2C_addr byte
  | Begin_Stream
  | Begin_SPI byte
  | Begin_SPI_settings byte SPISettings
  | Clear
  | Home
  | SetCursor byte byte
  | CreateChar byte "byte list"
  | WriteChar byte
  | Write_byte byte
  | Write_buffer "byte list" nat
  | Write_str "byte list option"
  | NoDisplay
  | Display
  | NoCursor
  | Cursor
  | NoBlink
  | Blink
  | ScrollDisplayLeft
  | ScrollDisplayRight
  | ScrollDisplayLeft_count byte
  | ScrollDisplayRight_count byte
  | MoveCursorLeft
  | MoveCursorRight
  | MoveCursorLeft_count byte
  | MoveCursorRight_count byte
  | SetBacklight_rgb "32 word"
  | SetBacklight byte byte byte
  | SetFastBacklight_rgb "32 word"
  | SetFastBacklight byte byte byte
  | LeftToRight
  | RightToLeft
  | Autoscroll
  | NoAutoscroll
  | SetContrast byte
  | SetAddress byte
  | Command byte
  | SpecialCommand byte
  | SpecialCommand_count byte byte

primrec exec :: "operation \<Rightarrow> lcd \<Rightarrow> lcd" where
  "exec Begin_I2C s = snd (begin_I2C s)"
| "exec (Begin_I2C_addr a) s = begin_I2C_addr a s"
| "exec Begin_Stream s = begin_Stream s"
| "exec (Begin_SPI pin) s = begin_SPI pin s"
| "exec (Begin_SPI_settings pin settings) s = begin_SPI_settings pin settings s"
| "exec Clear s = snd (clear s)"
| "exec Home s = snd (home s)"
| "exec (SetCursor col row) s = snd (setCursor col row s)"
| "exec (CreateChar location charmap) s = snd (createChar location charmap s)"
| "exec (WriteChar location) s = snd (writeChar location s)"
| "exec (Write_byte b) s = snd (write_byte b s)"
| "exec (Write_buffer buffer sz) s = snd (write_buffer buffer sz s)"
| "exec (Write_str str) s = snd (write_str str s)"
| "exec NoDisplay s = snd (noDisplay s)"
| "exec Display s = snd (display s)"
| "exec NoCursor s = snd (noCursor s)"
| "exec Cursor s = snd (cursor s)"
| "exec NoBlink s = snd (noBlink s)"
| "exec Blink s = snd (blink s)"
| "exec ScrollDisplayLeft s = snd (scrollDisplayLeft s)"
| "exec ScrollDisplayRight s = snd (scrollDisplayRight s)"
| "exec (ScrollDisplayLeft_count n) s = snd (scrollDisplayLeft_count n s)"
| "exec (ScrollDisplayRight_count n) s = snd (scrollDisplayRight_count n s)"
| "exec MoveCursorLeft s = snd (moveCursorLeft s)"
| "exec MoveCursorRight s = snd (moveCursorRight s)"
| "exec (MoveCursorLeft_count n) s = snd (moveCursorLeft_count n s)"
| "exec (MoveCursorRight_count n) s = snd (moveCursorRight_count n s)"
| "exec (SetBacklight_rgb rgb) s = snd (setBacklight_rgb rgb s)"
| "exec (SetBacklight r g b) s = snd (setBacklight r g b s)"
| "exec (SetFastBacklight_rgb rgb) s = snd (setFastBacklight_rgb rgb s)"
| "exec (SetFastBacklight r g b) s = snd (setFastBacklight r g b s)"
| "exec LeftToRight s = snd (leftToRight s)"
| "exec RightToLeft s = snd (rightToLeft s)"
| "exec Autoscroll s = snd (autoscroll s)"
| "exec NoAutoscroll s = snd (noAutoscroll s)"
| "exec (SetContrast v) s = snd (setContrast v s)"
| "exec (SetAddress a) s = snd (setAddress a s)"
| "exec (Command c) s = snd (command c s)"
| "exec (SpecialCommand c) s = snd (specialCommand c s)"
| "exec (SpecialCommand_count c n) s = snd (specialCommand_count c n s)"

fun run :: "operation list \<Rightarrow> lcd \<Rightarrow> lcd" where
  "run [] s = s"
| "run (op # ops) s = run ops (exec op s)"

subsection \<open>Example objects\<close>

text \<open>
  Two I2C libraries: one that always answers OK and one whose \<open>k\<close>-th call fails. An
  I2C display on the first after \<^verbatim>\<open>begin\<close>; an I2C display on a bus whose call number 11
  fails (the eight calls of \<^verbatim>\<open>begin\<close> are numbers 0 to 7); an SPI display with
  transactions on pin 9; and a short list of calls.
\<close>

definition always_ok :: "nat \<Rightarrow> bool" where
  "always_ok n = True"

definition fails_at :: "nat \<Rightarrow> nat \<Rightarrow> bool" where
  "fails_at k n = (n \<noteq> k)"

definition demo_i2c :: lcd where
  "demo_i2c = snd (begin_I2C (SerLCD always_ok))"

definition demo_i2c_fail :: lcd where
  "demo_i2c_fail = snd (begin_I2C (SerLCD (fails_at 11)))"

definition demo_spi :: lcd where
  "demo_spi = begin_SPI_settings 9 (SPISettings 100000 True 0) (SerLCD always_ok)"

definition demo_ops :: "operation list" where
  "demo_ops = [Begin_I2C_addr 0x71, Cursor, SetBacklight 1 2 3, RightToLeft, Autoscroll]"

section \<open>Auxiliary lemmas\<close>

subsection \<open>Chains and later states\<close>

lemma on_true_fold:
  "(case x of (Some True, s') \<Rightarrow> G s' | (Some False, s') \<Rightarrow> (Some False, s') | (None, s') \<Rightarrow> (None, s')) = on_true x G"
  by (simp add: on_true_def)

lemma and_chain_Cons: "and_chain (f # fs) s = on_true (f s) (and_chain fs)"
  by (simp add: on_true_def)

lemma on_true_simps [simp]:
  "on_true (Some True, s) G = G s"
  "on_true (Some False, s) G = (Some False, s)"
  "on_true (None, s) G = (None, s)"
  by (simp_all add: on_true_def)

lemma advance_fields [simp]:
  "i2cPort (advance n es s) = i2cPort s"
  "serialPort (advance n es s) = serialPort s"
  "spiPort (advance n es s) = spiPort s"
  "spiSettings (advance n es s) = spiSettings s"
  "spiTransaction (advance n es s) = spiTransaction s"
  "csPin (advance n es s) = csPin s"
  "i2cAddr (advance n es s) = i2cAddr s"
  "displayControl (advance n es s) = displayControl s"
  "displayMode (advance n es s) = displayMode s"
  "i2cStatus (advance n es s) = i2cStatus s"
  "i2cCalls (advance n es s) = i2cCalls s + n"
  "trace (advance n es s) = trace s @ es"
  by (simp_all add: advance_def)

lemma advance_advance [simp]: "advance m es' (advance n es s) = advance (n + m) (es @ es') s"
  by (simp add: advance_def)

lemma delay_advance [simp]: "delay k (advance n es s) = advance n (es @ [Delay k]) s"
  by (simp add: advance_def delay_def emit_def)

lemma delay_eq_advance: "delay k s = advance 0 [Delay k] s"
  by (simp add: advance_def delay_def emit_def)

lemma advance_displayControl [simp]:
  "advance n es (s\<lparr>displayControl := x\<rparr>) = (advance n es s)\<lparr>displayControl := x\<rparr>"
  "advance n es (s\<lparr>displayMode := x\<rparr>) = (advance n es s)\<lparr>displayMode := x\<rparr>"
  "advance n es (s\<lparr>i2cAddr := y\<rparr>) = (advance n es s)\<lparr>i2cAddr := y\<rparr>"
  by (simp_all add: advance_def)

lemma delay_update [simp]:
  "delay k (s\<lparr>displayControl := x\<rparr>) = (delay k s)\<lparr>displayControl := x\<rparr>"
  "delay k (s\<lparr>displayMode := x\<rparr>) = (delay k s)\<lparr>displayMode := x\<rparr>"
  "delay k (s\<lparr>i2cAddr := y\<rparr>) = (delay k s)\<lparr>i2cAddr := y\<rparr>"
  by (simp_all add: delay_def emit_def)

lemma working_simps [simp]:
  "working (advance n es s) = working s"
  "working (s\<lparr>displayControl := x\<rparr>) = working s"
  "working (s\<lparr>displayMode := x\<rparr>) = working s"
  by (simp_all add: working_def)

lemma frame_simps [simp]:
  "frame_open (advance n es s) = frame_open s"
  "frame_open (s\<lparr>displayControl := x\<rparr>) = frame_open s"
  "frame_open (s\<lparr>displayMode := x\<rparr>) = frame_open s"
  "frame_byte (advance n es s) = frame_byte s"
  "frame_byte (s\<lparr>displayControl := x\<rparr>) = frame_byte s"
  "frame_byte (s\<lparr>displayMode := x\<rparr>) = frame_byte s"
  "frame_close (advance n es s) = frame_close s"
  "frame_close (s\<lparr>displayControl := x\<rparr>) = frame_close s"
  "frame_close (s\<lparr>displayMode := x\<rparr>) = frame_close s"
  "ncalls (advance n es s) = ncalls s"
  "ncalls (s\<lparr>displayControl := x\<rparr>) = ncalls s"
  "ncalls (s\<lparr>displayMode := x\<rparr>) = ncalls s"
  by (simp_all add: frame_open_def frame_byte_def frame_close_def ncalls_def fun_eq_iff)

subsection \<open>A transport on which every step succeeds\<close>

lemma beginTransmission_working:
  "working s \<Longrightarrow> beginTransmission s = (Some True, advance (ncalls s) (frame_open s) s)"
  by (auto simp: working_def beginTransmission_def i2c_call_def advance_def frame_open_def
      ncalls_def emit_def delay_def)

lemma transmit_working:
  "working s \<Longrightarrow> transmit b s = (Some True, advance (ncalls s) [frame_byte s b] s)"
  by (auto simp: working_def transmit_def i2c_call_def advance_def frame_byte_def
      ncalls_def emit_def delay_def)

lemma endTransmission_working:
  "working s \<Longrightarrow> endTransmission s = (Some True, advance (ncalls s) (frame_close s) s)"
  by (auto simp: working_def endTransmission_def i2c_call_def advance_def frame_close_def
      ncalls_def emit_def delay_def)

lemmas working_prims = beginTransmission_working transmit_working endTransmission_working

lemma and_chain_Nil: "and_chain [] s = (Some True, s)"
  by simp

declare and_chain.simps [simp del]

lemmas chain_simps = on_true_fold and_chain_Cons and_chain_Nil

lemma specialCommand_working:
  "working s \<Longrightarrow> specialCommand c s =
     (Some True, advance (4 * ncalls s)
        (frame_open s @ [frame_byte s 254, frame_byte s c] @ frame_close s @ [Delay 50]) s)"
  by (simp add: specialCommand_def chain_simps working_prims)

lemma command_working:
  "working s \<Longrightarrow> command c s =
     (Some True, advance (4 * ncalls s)
        (frame_open s @ [frame_byte s 0x7C, frame_byte s c] @ frame_close s @ [Delay 10]) s)"
  by (simp add: command_def chain_simps working_prims)

lemma specialCommand_loop_working:
  "working s \<Longrightarrow> specialCommand_loop n c s =
     (Some True, advance (2 * n * ncalls s)
        (concat (replicate n [frame_byte s 254, frame_byte s c])) s)"
proof (induction n arbitrary: s)
  case 0
  then show ?case by (simp add: advance_def)
next
  case (Suc n)
  then show ?case
    by (simp add: chain_simps working_prims)
qed

lemma specialCommand_count_working:
  "working s \<Longrightarrow> specialCommand_count c N s =
     (Some True, advance ((2 * unat N + 2) * ncalls s)
        (frame_open s @ concat (replicate (unat N) [frame_byte s 254, frame_byte s c])
          @ frame_close s @ [Delay 50]) s)"
  by (simp add: specialCommand_count_def chain_simps working_prims specialCommand_loop_working algebra_simps)

lemma createChar_loop_working:
  "working s \<Longrightarrow> i + n \<le> length cm \<Longrightarrow> createChar_loop n i cm s =
     (Some True, advance (n * ncalls s) (map (frame_byte s) (take n (drop i cm))) s)"
proof (induction n arbitrary: i s)
  case 0
  then show ?case by (simp add: advance_def)
next
  case (Suc n)
  then show ?case
    by (simp add: chain_simps working_prims Cons_nth_drop_Suc [symmetric])
qed

lemma createChar_working:
  "working s \<Longrightarrow> length cm = 8 \<Longrightarrow> createChar loc cm s =
     (Some True, advance (12 * ncalls s)
        (frame_open s @ map (frame_byte s) ([0x7C, 27 + (loc AND 7)] @ cm)
          @ frame_close s @ [Delay 50]) s)"
  by (simp add: createChar_def chain_simps working_prims createChar_loop_working)

lemma setBacklight_working:
  "working s \<Longrightarrow> setBacklight r g b s =
     (Some True, (advance (12 * ncalls s)
        (frame_open s @ map (frame_byte s)
           [254, 8 OR (displayControl s AND NOT 4),
            0x7C, red_level r, 0x7C, green_level g, 0x7C, blue_level b,
            254, 8 OR (displayControl s AND NOT 4 OR 4)]
          @ frame_close s @ [Delay 50]) s)\<lparr>displayControl := displayControl s AND NOT 4 OR 4\<rparr>)"
  by (simp add: setBacklight_def Let_def chain_simps working_prims)

subsection \<open>The I2C transport, answer by answer\<close>

lemma on_true_Some: "on_true (Some b, s) G = (if b then G s else (Some False, s))"
  by (cases b) simp_all

lemma beginTransmission_i2c:
  "i2cPort s \<Longrightarrow> beginTransmission s =
     (Some (i2cStatus s (i2cCalls s)),
      advance 1 [I2C_beginTransmission (i2cAddr s) (i2cStatus s (i2cCalls s))] s)"
  by (simp add: beginTransmission_def i2c_call_def advance_def Let_def)

lemma transmit_i2c:
  "i2cPort s \<Longrightarrow> transmit b s =
     (Some (i2cStatus s (i2cCalls s)),
      advance 1 [I2C_transmit b (i2cStatus s (i2cCalls s))] s)"
  by (simp add: transmit_def i2c_call_def advance_def Let_def)

lemma endTransmission_i2c:
  "i2cPort s \<Longrightarrow> endTransmission s =
     (Some (i2cStatus s (i2cCalls s)),
      advance 1 [I2C_endTransmission (i2cStatus s (i2cCalls s))] s)"
  by (simp add: endTransmission_def i2c_call_def advance_def Let_def)

lemmas i2c_prims = beginTransmission_i2c transmit_i2c endTransmission_i2c on_true_Some

subsection \<open>What the operations leave unchanged\<close>

lemma evolves_refl [simp]: "evolves s s"
  unfolding evolves_def by (rule exI [of _ 0], rule exI [of _ "[]"]) (simp add: advance_def)

lemma evolves_trans: "evolves s s1 \<Longrightarrow> evolves s1 s2 \<Longrightarrow> evolves s s2"
  unfolding evolves_def by (metis advance_advance)

lemma evolves_emit [simp]: "evolves s (emit e s)"
  unfolding evolves_def by (rule exI [of _ 0], rule exI [of _ "[e]"]) (simp add: advance_def emit_def)

lemma evolves_delay: "evolves s s' \<Longrightarrow> evolves s (delay n s')"
  unfolding evolves_def by (metis delay_advance)

lemma evolves_i2c_call: "evolves s (snd (i2c_call ev s))"
  unfolding evolves_def i2c_call_def Let_def
  by (rule exI [of _ 1], rule exI [of _ "[ev (i2cStatus s (i2cCalls s))]"]) (simp add: advance_def)

lemma evolves_beginTransmission: "evolves s (snd (beginTransmission s))"
proof -
  have "evolves s (delay 10 (emit (DigitalWrite (csPin s) False) s))"
    by (intro evolves_delay) simp
  moreover have "evolves s (delay 10 (emit (DigitalWrite (csPin s) False) (emit (SPI_beginTransaction (spiSettings s)) s)))"
    by (intro evolves_delay evolves_trans [OF evolves_emit [of s "SPI_beginTransaction (spiSettings s)"]]) simp
  moreover have "csPin (emit (SPI_beginTransaction (spiSettings s)) s) = csPin s"
    by (simp add: emit_def)
  ultimately show ?thesis
    using evolves_i2c_call [of s "I2C_beginTransmission (i2cAddr s)"]
    by (auto simp: beginTransmission_def Let_def split: prod.splits)
qed

lemma evolves_transmit: "evolves s (snd (transmit b s))"
  using evolves_i2c_call [of s "I2C_transmit b"]
  by (auto simp: transmit_def split: prod.splits)

lemma evolves_endTransmission: "evolves s (snd (endTransmission s))"
proof -
  have "evolves s (delay 10 (emit (DigitalWrite (csPin s) True) s))"
    by (intro evolves_delay) simp
  moreover have "evolves s (delay 10 (emit SPI_endTransaction (emit (DigitalWrite (csPin s) True) s)))"
    by (intro evolves_delay evolves_trans [OF evolves_emit [of s "DigitalWrite (csPin s) True"]]) simp
  ultimately show ?thesis
    using evolves_i2c_call [of s I2C_endTransmission]
    by (auto simp: endTransmission_def Let_def split: prod.splits)
qed

lemma evolves_on_true:
  "evolves s (snd x) \<Longrightarrow> (\<And>s1. evolves s1 (snd (G s1))) \<Longrightarrow> evolves s (snd (on_true x G))"
  by (cases x) (auto simp: on_true_def split: option.splits bool.splits intro: evolves_trans)

lemma evolves_and_chain:
  "(\<And>f s. f \<in> set fs \<Longrightarrow> evolves s (snd (f s))) \<Longrightarrow> evolves s (snd (and_chain fs s))"
proof (induction fs arbitrary: s)
  case Nil
  then show ?case by (simp add: and_chain_Nil)
next
  case (Cons f fs)
  show ?case
    unfolding and_chain_Cons
    by (rule evolves_on_true) (simp_all add: Cons)
qed

lemmas evolves_prims = evolves_beginTransmission evolves_transmit evolves_endTransmission

lemma evolves_ret_delay: "evolves s1 (snd (r, delay n s1))"
  by (simp add: evolves_delay)

lemma evolves_command: "evolves s (snd (command c s))"
  unfolding command_def on_true_fold
  by (intro evolves_on_true evolves_and_chain evolves_ret_delay) (auto simp: evolves_prims)

lemma evolves_specialCommand: "evolves s (snd (specialCommand c s))"
  unfolding specialCommand_def on_true_fold
  by (intro evolves_on_true evolves_and_chain evolves_ret_delay) (auto simp: evolves_prims)

lemma evolves_init: "evolves s (snd (init s))"
  unfolding init_def on_true_fold
  by (intro evolves_on_true evolves_and_chain evolves_ret_delay) (auto simp: evolves_prims)

lemma evolves_specialCommand_loop: "evolves s (snd (specialCommand_loop n c s))"
proof (induction n arbitrary: s)
  case 0
  then show ?case by simp
next
  case (Suc n)
  show ?case
    unfolding specialCommand_loop.simps on_true_fold
    by (intro evolves_on_true evolves_and_chain) (auto simp: evolves_prims Suc)
qed

lemma evolves_specialCommand_count: "evolves s (snd (specialCommand_count c n s))"
  unfolding specialCommand_count_def on_true_fold
  by (intro evolves_on_true evolves_ret_delay evolves_prims evolves_specialCommand_loop)

lemma evolves_clear: "evolves s (snd (clear s))"
  unfolding clear_def on_true_fold
  by (intro evolves_on_true evolves_ret_delay evolves_command)

lemma evolves_createChar_loop: "evolves s (snd (createChar_loop n i cm s))"
proof (induction n arbitrary: i s)
  case 0
  then show ?case by simp
next
  case (Suc n)
  show ?case
  proof (cases "i < length cm")
    case True
    have "evolves s (snd (on_true (transmit (cm ! i) s) (createChar_loop n (Suc i) cm)))"
      by (rule evolves_on_true) (simp_all add: evolves_prims Suc)
    with True show ?thesis by (simp add: on_true_fold)
  next
    case False
    then show ?thesis by simp
  qed
qed

lemma evolves_createChar: "evolves s (snd (createChar loc cm s))"
  unfolding createChar_def on_true_fold Let_def
  by (intro evolves_on_true evolves_and_chain evolves_ret_delay evolves_prims evolves_createChar_loop)
     (auto simp: evolves_prims)

lemma evolves_setCursor: "evolves s (snd (setCursor col row s))"
  unfolding setCursor_def Let_def by (auto intro: evolves_specialCommand)

lemma evolves_write_byte: "evolves s (snd (write_byte b s))"
proof -
  have 1: "evolves s (snd (transmit b (snd (beginTransmission s))))"
    by (rule evolves_trans [OF evolves_beginTransmission evolves_transmit])
  have 2: "evolves s (snd (endTransmission (snd (transmit b (snd (beginTransmission s))))))"
    by (rule evolves_trans [OF 1 evolves_endTransmission])
  show ?thesis
    by (simp add: write_byte_def Let_def evolves_delay [OF 2])
qed

lemma evolves_write_loop: "evolves s (snd (write_loop sz buf n s))"
proof (induction sz buf n s rule: write_loop.induct)
  case (3 sz b buffer n s)
  then show ?case by (auto intro: evolves_trans [OF evolves_transmit])
qed simp_all

lemma evolves_write_buffer: "evolves s (snd (write_buffer buf sz s))"
proof -
  let ?s1 = "snd (beginTransmission s)"
  obtain r s2 where w: "write_loop sz buf 0 ?s1 = (r, s2)" by (cases "write_loop sz buf 0 ?s1")
  have e2: "evolves s s2"
    using evolves_trans [OF evolves_beginTransmission evolves_write_loop [of ?s1 sz buf 0]] w by simp
  have "evolves s (delay 10 (snd (endTransmission s2)))"
    by (rule evolves_delay, rule evolves_trans [OF e2 evolves_endTransmission])
  with e2 w show ?thesis
    by (cases r) (simp_all add: write_buffer_def Let_def)
qed

lemma evolves_write_str: "evolves s (snd (write_str str s))"
  by (cases str) (simp_all add: write_str_def evolves_write_buffer)

lemma evolves_setFastBacklight: "evolves s (snd (setFastBacklight r g b s))"
  unfolding setFastBacklight_def on_true_fold
  by (intro evolves_on_true evolves_and_chain evolves_ret_delay) (auto simp: evolves_prims)

lemma evolves_setContrast: "evolves s (snd (setContrast v s))"
  unfolding setContrast_def on_true_fold
  by (intro evolves_on_true evolves_and_chain evolves_ret_delay) (auto simp: evolves_prims)

lemma evolves_fields:
  assumes "evolves s s'"
  shows "displayControl s' = displayControl s" "displayMode s' = displayMode s"
    "i2cAddr s' = i2cAddr s" "i2cPort s' = i2cPort s" "spiPort s' = spiPort s"
    "serialPort s' = serialPort s" "i2cStatus s' = i2cStatus s"
  using assms unfolding evolves_def by (auto simp del: advance_displayControl)

subsection \<open>The mask invariant\<close>

lemma shadow_inv_evolves: "evolves s s' \<Longrightarrow> shadow_inv s' = shadow_inv s"
  by (simp add: shadow_inv_def evolves_fields)

lemma mask_and:
  fixes x y m :: byte
  shows "x AND m = 0 \<Longrightarrow> (x AND y) AND m = 0"
  by (metis and.assoc and.commute and_zero_eq)

lemma shadow_inv_update:
  "shadow_inv s \<Longrightarrow> shadow_inv (s\<lparr>displayControl := displayControl s OR 4\<rparr>)"
  "shadow_inv s \<Longrightarrow> shadow_inv (s\<lparr>displayControl := displayControl s OR 2\<rparr>)"
  "shadow_inv s \<Longrightarrow> shadow_inv (s\<lparr>displayControl := displayControl s OR 1\<rparr>)"
  "shadow_inv s \<Longrightarrow> shadow_inv (s\<lparr>displayControl := displayControl s AND y\<rparr>)"
  "shadow_inv s \<Longrightarrow> shadow_inv (s\<lparr>displayMode := displayMode s OR 2\<rparr>)"
  "shadow_inv s \<Longrightarrow> shadow_inv (s\<lparr>displayMode := displayMode s OR 1\<rparr>)"
  "shadow_inv s \<Longrightarrow> shadow_inv (s\<lparr>displayMode := displayMode s AND y\<rparr>)"
  by (simp_all add: shadow_inv_def bit.conj_disj_distrib2 mask_and)

lemma shadow_inv_other [simp]:
  "shadow_inv (s\<lparr>i2cAddr := a\<rparr>) = shadow_inv s"
  "shadow_inv (s\<lparr>i2cPort := p\<rparr>) = shadow_inv s"
  "shadow_inv (s\<lparr>serialPort := p\<rparr>) = shadow_inv s"
  "shadow_inv (s\<lparr>spiPort := p\<rparr>) = shadow_inv s"
  "shadow_inv (s\<lparr>csPin := c\<rparr>) = shadow_inv s"
  "shadow_inv (s\<lparr>spiSettings := st\<rparr>) = shadow_inv s"
  "shadow_inv (s\<lparr>spiTransaction := p\<rparr>) = shadow_inv s"
  "shadow_inv (emit e s) = shadow_inv s"
  "shadow_inv (delay n s) = shadow_inv s"
  by (simp_all add: shadow_inv_def emit_def delay_def)

lemma shadow_inv_toggles:
  assumes "shadow_inv s"
  shows "shadow_inv (snd (noDisplay s))" "shadow_inv (snd (display s))"
    "shadow_inv (snd (noCursor s))" "shadow_inv (snd (cursor s))"
    "shadow_inv (snd (noBlink s))" "shadow_inv (snd (blink s))"
    "shadow_inv (snd (leftToRight s))" "shadow_inv (snd (rightToLeft s))"
    "shadow_inv (snd (autoscroll s))" "shadow_inv (snd (noAutoscroll s))"
  using assms
  by (simp_all add: noDisplay_def display_def noCursor_def cursor_def noBlink_def blink_def
      leftToRight_def rightToLeft_def autoscroll_def noAutoscroll_def Let_def
      shadow_inv_evolves [OF evolves_specialCommand] shadow_inv_update)

text \<open>The three stages of the slow backlight form.\<close>

lemma setBacklight_stages:
  obtains
    (closed) "fst (beginTransmission s) \<noteq> Some True"
      "fst (setBacklight r g b s) = fst (beginTransmission s)"
      "displayControl (snd (setBacklight r g b s)) = displayControl s"
      "displayMode (snd (setBacklight r g b s)) = displayMode s"
  | (dark) "fst (beginTransmission s) = Some True"
      "fst (setBacklight r g b s) \<noteq> Some True"
      "displayControl (snd (setBacklight r g b s)) = displayControl s AND NOT 4"
      "displayMode (snd (setBacklight r g b s)) = displayMode s"
  | (lit) "fst (beginTransmission s) = Some True"
      "displayControl (snd (setBacklight r g b s)) = displayControl s AND NOT 4 OR 4"
      "displayMode (snd (setBacklight r g b s)) = displayMode s"
proof -
  obtain r1 s1 where b: "beginTransmission s = (r1, s1)"
    by (cases "beginTransmission s")
  have e1: "evolves s s1"
    using evolves_beginTransmission [of s] b by simp
  let ?s2 = "s1\<lparr>displayControl := displayControl s1 AND NOT 4\<rparr>"
  let ?c8 = "and_chain [transmit 254, transmit (8 OR displayControl ?s2), transmit 0x7C,
      transmit (red_level r), transmit 0x7C, transmit (green_level g), transmit 0x7C,
      transmit (blue_level b)]"
  obtain r3 s3 where c8: "?c8 ?s2 = (r3, s3)"
    by (cases "?c8 ?s2")
  have e3: "evolves ?s2 s3"
    using evolves_and_chain [of _ ?s2] c8
    by (metis (no_types, lifting) evolves_transmit set_ConsD empty_iff empty_set snd_conv)
  let ?s4 = "s3\<lparr>displayControl := displayControl s3 OR 4\<rparr>"
  let ?c3 = "and_chain [transmit 254, transmit (8 OR displayControl ?s4), endTransmission]"
  obtain r5 s5 where c3: "?c3 ?s4 = (r5, s5)"
    by (cases "?c3 ?s4")
  have e5: "evolves ?s4 s5"
  proof -
    have "evolves ?s4 (snd (?c3 ?s4))"
      by (rule evolves_and_chain) (auto simp: evolves_prims)
    with c3 show ?thesis by simp
  qed
  have sb: "setBacklight r g b s =
      on_true (r1, s1) (\<lambda>_. on_true (r3, s3) (\<lambda>_. on_true (r5, s5) (\<lambda>s5. (Some True, delay 50 s5))))"
    using b c8 c3 by (simp add: setBacklight_def Let_def on_true_fold) (simp add: on_true_def split: option.splits bool.splits)
  show ?thesis
  proof (cases "r1 = Some True")
    case False
    then have "setBacklight r g b s = (r1, s1)"
      unfolding sb by (cases r1) (auto simp: on_true_def)
    with False b e1 show ?thesis
      by (intro closed) (simp_all add: evolves_fields)
  next
    case r1: True
    show ?thesis
    proof (cases "r3 = Some True")
      case False
      then have "setBacklight r g b s = (r3, s3)"
        unfolding sb using r1 by (cases r3) (auto simp: on_true_def)
      with False b r1 e1 e3 show ?thesis
        by (intro dark) (simp_all add: evolves_fields [OF e3] evolves_fields [OF e1])
    next
      case r3: True
      have "snd (setBacklight r g b s) = s5 \<or> snd (setBacklight r g b s) = delay 50 s5"
        unfolding sb using r1 r3 by (cases r5) (auto simp: on_true_def split: bool.splits)
      then have "evolves ?s4 (snd (setBacklight r g b s))"
        using e5 evolves_delay [OF e5] by auto
      from evolves_fields [OF this] b r1 show ?thesis
        by (intro lit) (simp_all add: evolves_fields [OF e3] evolves_fields [OF e1])
    qed
  qed
qed

lemma shadow_inv_setBacklight:
  assumes "shadow_inv s"
  shows "shadow_inv (snd (setBacklight r g b s))"
proof (cases rule: setBacklight_stages [of s r g b])
  case closed
  with assms show ?thesis by (simp add: shadow_inv_def)
next
  case dark
  with assms show ?thesis by (simp add: shadow_inv_def mask_and)
next
  case lit
  with assms show ?thesis by (simp add: shadow_inv_def bit.conj_disj_distrib2 mask_and)
qed

lemma shadow_inv_setAddress: "shadow_inv (snd (setAddress a s)) = shadow_inv s"
proof -
  let ?c = "and_chain [beginTransmission, transmit 0x7C, transmit 0x19, transmit a, endTransmission]"
  obtain r s' where c: "?c s = (r, s')" by (cases "?c s")
  have "evolves s (snd (?c s))"
    by (rule evolves_and_chain) (auto simp: evolves_prims)
  with c have "shadow_inv s' = shadow_inv s"
    by (simp add: shadow_inv_evolves)
  with c show ?thesis
    by (simp add: setAddress_def split: option.splits bool.splits)
qed

lemma shadow_inv_begin:
  "shadow_inv (snd (begin_I2C s)) = shadow_inv s"
  "shadow_inv (begin_I2C_addr a s) = shadow_inv s"
  "shadow_inv (begin_Stream s) = shadow_inv s"
  "shadow_inv (begin_SPI pin s) = shadow_inv s"
  "shadow_inv (begin_SPI_settings pin st s) = shadow_inv s"
  by (simp_all add: begin_I2C_def begin_I2C_addr_def begin_Stream_def begin_SPI_def
      begin_SPI_settings_def Let_def shadow_inv_evolves [OF evolves_init])

lemmas shadow_inv_plain =
  shadow_inv_evolves [OF evolves_clear] shadow_inv_evolves [OF evolves_specialCommand]
  shadow_inv_evolves [OF evolves_setCursor] shadow_inv_evolves [OF evolves_createChar]
  shadow_inv_evolves [OF evolves_command] shadow_inv_evolves [OF evolves_write_byte]
  shadow_inv_evolves [OF evolves_write_buffer] shadow_inv_evolves [OF evolves_write_str]
  shadow_inv_evolves [OF evolves_specialCommand_count]
  shadow_inv_evolves [OF evolves_setFastBacklight] shadow_inv_evolves [OF evolves_setContrast]

lemma shadow_inv_exec: "shadow_inv s \<Longrightarrow> shadow_inv (exec op s)"
  by (cases op)
    (simp_all add: shadow_inv_plain shadow_inv_begin shadow_inv_toggles shadow_inv_setBacklight
      shadow_inv_setAddress home_def writeChar_def scrollDisplayLeft_def scrollDisplayRight_def
      scrollDisplayLeft_count_def scrollDisplayRight_count_def moveCursorLeft_def
      moveCursorRight_def moveCursorLeft_count_def moveCursorRight_count_def
      setBacklight_rgb_def setFastBacklight_rgb_def Let_def)

lemma shadow_inv_run: "shadow_inv s \<Longrightarrow> shadow_inv (run ops s)"
  by (induction ops arbitrary: s) (simp_all add: shadow_inv_exec)

lemma shadow_inv_SerLCD: "shadow_inv (SerLCD bus)"
  by (simp add: shadow_inv_def SerLCD_def)

lemma demo_eval:
  "displayControl (run demo_ops (SerLCD (fails_at 14))) = 2"
  "displayMode (run demo_ops (SerLCD (fails_at 14))) = 1"
  by (simp_all add: demo_ops_def SerLCD_def fails_at_def begin_I2C_addr_def begin_I2C_def init_def
      cursor_def setBacklight_def rightToLeft_def autoscroll_def specialCommand_def Let_def
      chain_simps i2c_prims)

subsection \<open>The backlight levels\<close>

lemma map_range_byte: "0 \<le> x \<Longrightarrow> map_range x 0 255 0 29 = x * 29 div 255"
  by (cases "x = 0") (simp_all add: map_range_def Let_def sgn_if)

lemma uint_byte_of_int: "0 \<le> k \<Longrightarrow> k < 256 \<Longrightarrow> uint (word_of_int k :: byte) = k"
  by (simp add: uint_word_of_int)

lemma level_uint:
  "uint (red_level r) = 128 + uint r * 29 div 255"
  "uint (green_level r) = 158 + uint r * 29 div 255"
  "uint (blue_level r) = 188 + uint r * 29 div 255"
proof -
  have "uint r < 256" using uint_bounded [of r] by simp
  then have b: "uint r * 29 div 255 \<le> 29" by simp
  have n: "0 \<le> uint r * 29 div 255" by (simp add: pos_imp_zdiv_nonneg_iff)
  have m: "map_range (uint r) 0 255 0 29 = uint r * 29 div 255"
    by (rule map_range_byte) simp
  show "uint (red_level r) = 128 + uint r * 29 div 255"
    unfolding red_level_def m by (rule uint_byte_of_int) (use b n in linarith)+
  show "uint (green_level r) = 158 + uint r * 29 div 255"
    unfolding green_level_def m by (rule uint_byte_of_int) (use b n in linarith)+
  show "uint (blue_level r) = 188 + uint r * 29 div 255"
    unfolding blue_level_def m by (rule uint_byte_of_int) (use b n in linarith)+
qed

lemma level_mono:
  assumes "r \<le> r'"
  shows "red_level r \<le> red_level r'" "green_level r \<le> green_level r'" "blue_level r \<le> blue_level r'"
proof -
  from assms have "uint r \<le> uint r'" by (simp add: word_le_def)
  then have "uint r * 29 div 255 \<le> uint r' * 29 div 255"
    by (intro zdiv_mono1) simp_all
  then show "red_level r \<le> red_level r'" "green_level r \<le> green_level r'" "blue_level r \<le> blue_level r'"
    by (simp_all add: word_le_def level_uint)
qed

lemma level_ends:
  "red_level 0 = 128" "red_level 255 = 157"
  "green_level 0 = 158" "green_level 255 = 187"
  "blue_level 0 = 188" "blue_level 255 = 217"
  by (simp_all add: red_level_def green_level_def blue_level_def map_range_def)

subsection \<open>The example objects\<close>

lemma init_working:
  "working s \<Longrightarrow> init s =
     (Some True, advance (8 * ncalls s)
        (frame_open s @ map (frame_byte s)
           [254, 8 OR displayControl s, 254, 4 OR displayMode s, 0x7C, 0x2D]
          @ frame_close s @ [Delay 50]) s)"
  by (simp add: init_def chain_simps working_prims)

lemma demo_i2c_fields [simp]:
  "working demo_i2c" "i2cPort demo_i2c" "i2cAddr demo_i2c = 0x72"
  "displayControl demo_i2c = 4" "displayMode demo_i2c = 2" "i2cStatus demo_i2c = always_ok"
  "i2cCalls demo_i2c = 8"
  by (simp_all add: demo_i2c_def begin_I2C_def init_working working_def SerLCD_def always_ok_def
      ncalls_def)

lemma demo_i2c_frame [simp]:
  "frame_open demo_i2c = [I2C_beginTransmission 0x72 True]"
  "frame_byte demo_i2c b = I2C_transmit b True"
  "frame_close demo_i2c = [I2C_endTransmission True]"
  by (simp_all add: frame_open_def frame_byte_def frame_close_def)

lemma demo_spi_fields [simp]:
  "working demo_spi" "\<not> i2cPort demo_spi" "spiPort demo_spi" "\<not> serialPort demo_spi"
  "csPin demo_spi = 9" "spiTransaction demo_spi"
  "spiSettings demo_spi = SPISettings 100000 True 0"
  "displayControl demo_spi = 4" "displayMode demo_spi = 2"
  by (simp_all add: demo_spi_def begin_SPI_settings_def begin_SPI_def Let_def emit_def
      init_working working_def SerLCD_def ncalls_def)

lemma demo_spi_frame [simp]:
  "frame_open demo_spi = [SPI_beginTransaction (SPISettings 100000 True 0), DigitalWrite 9 False, Delay 10]"
  "frame_byte demo_spi b = SPI_transfer b"
  "frame_close demo_spi = [DigitalWrite 9 True, SPI_endTransaction, Delay 10]"
  by (simp_all add: frame_open_def frame_byte_def frame_close_def)

lemma emitted_append [simp]: "trace s' = trace s @ es \<Longrightarrow> emitted s s' = es"
  by (simp add: emitted_def)

subsection \<open>Bits, rows and the address change\<close>

lemma set_clear_restores:
  fixes x b :: byte
  assumes "x AND b = 0"
  shows "(x OR b) AND NOT b = x"
proof (rule bit_word_eqI)
  fix n
  from assms have "bit (x AND b) n = bit (0 :: byte) n" by simp
  then have "\<not> (bit x n \<and> bit b n)" by (simp add: bit_and_iff)
  then show "bit ((x OR b) AND NOT b) n = bit x n"
    by (auto simp: bit_simps dest: bit_imp_possible_bit)
qed

lemma clear_set_restores:
  fixes x b :: byte
  assumes "x AND b = b"
  shows "(x AND NOT b) OR b = x"
proof (rule bit_word_eqI)
  fix n
  from assms have "bit (x AND b) n = bit b n" by simp
  then have "bit b n \<longrightarrow> bit x n" by (auto simp: bit_and_iff)
  then show "bit ((x AND NOT b) OR b) n = bit x n"
    by (auto simp: bit_simps dest: bit_imp_possible_bit)
qed

lemma all_next_5:
  "(\<forall>k<5. P (n + k)) \<longleftrightarrow> P n \<and> P (Suc n) \<and> P (Suc (Suc n)) \<and> P (Suc (Suc (Suc n)))
     \<and> P (Suc (Suc (Suc (Suc n))))"
  by (simp add: numeral_eq_Suc All_less_Suc2)

lemma setAddress_i2c_result:
  "i2cPort s \<Longrightarrow> fst (setAddress a s) = Some (\<forall>k<5. i2cStatus s (i2cCalls s + k))"
  by (simp add: setAddress_def chain_simps i2c_prims all_next_5)

lemma row_clamp:
  fixes row :: byte
  shows "(word_of_int (min (uint (word_of_int (max 0 (uint row)) :: byte)) (4 - 1)) :: byte) = min row 3"
proof -
  have 1: "(word_of_int (max 0 (uint row)) :: byte) = row"
    by (simp add: max_def)
  show ?thesis
  proof (cases "row \<le> 3")
    case True
    then have "uint row \<le> 3" by (simp add: word_le_def)
    with True show ?thesis unfolding 1 by (simp add: min_def)
  next
    case False
    then have "\<not> uint row \<le> 3" by (simp add: word_le_def)
    with False show ?thesis unfolding 1 by (simp add: min_def)
  qed
qed

lemma row_index: "unat (min row (3 :: byte)) < 4"
proof -
  have "min row 3 \<le> (3 :: byte)" by simp
  then have "unat (min row 3) \<le> unat (3 :: byte)" by (simp only: word_le_nat_alt)
  then show ?thesis by simp
qed

lemma ddram_byte: "(word_of_int (128 OR (uint col + k)) :: byte) = 128 OR (col + word_of_int k)"
  by (simp add: of_int_or_eq)

lemma setCursor_byte:
  "setCursor col row s =
     specialCommand (0x80 OR (col + word_of_int (row_offsets ! unat (min row 3)))) s"
  using row_index [of row]
  by (simp only: setCursor_def row_clamp Let_def ddram_byte) (simp add: row_offsets_def)


lemma setAddress_shadow:
  "i2cAddr (snd (setAddress a s)) = (if fst (setAddress a s) = Some True then a else i2cAddr s)"
proof -
  let ?c = "and_chain [beginTransmission, transmit 0x7C, transmit 0x19, transmit a, endTransmission]"
  obtain r s' where c: "?c s = (r, s')" by (cases "?c s")
  have "evolves s (snd (?c s))"
    by (rule evolves_and_chain) (auto simp: evolves_prims)
  with c have "i2cAddr s' = i2cAddr s"
    by (simp add: evolves_fields)
  with c show ?thesis
    by (simp add: setAddress_def delay_def emit_def split: option.splits bool.splits)
qed

lemma setAddress_working:
  "working s \<Longrightarrow> setAddress a s =
     (Some True, (advance (5 * ncalls s)
        (frame_open s @ map (frame_byte s) [0x7C, 0x19, a] @ frame_close s @ [Delay 50]) s)
        \<lparr>i2cAddr := a\<rparr>)"
  by (simp add: setAddress_def chain_simps working_prims)

lemma beginTransmission_i2c_trace:
  "i2cPort s \<Longrightarrow> trace (snd (beginTransmission s)) =
     trace s @ [I2C_beginTransmission (i2cAddr s) (i2cStatus s (i2cCalls s))]"
  by (simp add: beginTransmission_i2c)

lemma setAddress_i2cPort: "i2cPort (snd (setAddress a s)) = i2cPort s"
proof -
  let ?c = "and_chain [beginTransmission, transmit 0x7C, transmit 0x19, transmit a, endTransmission]"
  obtain r s' where c: "?c s = (r, s')" by (cases "?c s")
  have "evolves s (snd (?c s))"
    by (rule evolves_and_chain) (auto simp: evolves_prims)
  with c have "i2cPort s' = i2cPort s"
    by (simp add: evolves_fields)
  with c show ?thesis
    by (simp add: setAddress_def delay_def emit_def split: option.splits bool.splits)
qed

lemma demo_i2c_fail_eval:
  "i2cPort demo_i2c_fail" "i2cAddr demo_i2c_fail = 0x72" "i2cCalls demo_i2c_fail = 8"
  "i2cStatus demo_i2c_fail = fails_at 11"
  by (simp_all add: demo_i2c_fail_def begin_I2C_def init_def chain_simps i2c_prims
      SerLCD_def fails_at_def)

lemma third_of_five_fails: "\<not> (\<forall>k<5::nat. k \<noteq> 3)"
  by auto

subsection \<open>Repeated commands and flags\<close>

lemma no_settle_in_pairs:
  "count_list (concat (replicate n [frame_byte s a, frame_byte s b])) (Delay k) = 0"
  by (induction n) (simp_all add: frame_byte_def)

lemma no_settle_in_frame:
  "count_list (frame_open s) (Delay 50) = 0" "count_list (frame_close s) (Delay 50) = 0"
  by (simp_all add: frame_open_def frame_close_def)

lemma replicate_two: "replicate 2 x = [x, x]"
  by (simp add: numeral_2_eq_2)

lemmas toggle_defs = noDisplay_def display_def noCursor_def cursor_def noBlink_def blink_def
  leftToRight_def rightToLeft_def autoscroll_def noAutoscroll_def

lemma specialCommand_masks:
  "displayControl (snd (specialCommand c s)) = displayControl s"
  "displayMode (snd (specialCommand c s)) = displayMode s"
  by (simp_all add: evolves_fields [OF evolves_specialCommand])

lemma turn_on_masks:
  "masks (snd (turn_on f s)) =
     (case f of DisplayOn \<Rightarrow> (displayControl s OR 4, displayMode s)
      | CursorOn \<Rightarrow> (displayControl s OR 2, displayMode s)
      | BlinkOn \<Rightarrow> (displayControl s OR 1, displayMode s)
      | EntryLeft \<Rightarrow> (displayControl s, displayMode s OR 2)
      | ShiftIncrement \<Rightarrow> (displayControl s, displayMode s OR 1))"
  by (cases f) (simp_all add: masks_def toggle_defs Let_def specialCommand_masks)

lemma turn_off_masks:
  "masks (snd (turn_off f s)) =
     (case f of DisplayOn \<Rightarrow> (displayControl s AND NOT 4, displayMode s)
      | CursorOn \<Rightarrow> (displayControl s AND NOT 2, displayMode s)
      | BlinkOn \<Rightarrow> (displayControl s AND NOT 1, displayMode s)
      | EntryLeft \<Rightarrow> (displayControl s, displayMode s AND NOT 2)
      | ShiftIncrement \<Rightarrow> (displayControl s, displayMode s AND NOT 1))"
  by (cases f) (simp_all add: masks_def toggle_defs Let_def specialCommand_masks)

lemma flag_mask_turn_on: "flag_mask f (snd (turn_on f s)) = flag_mask f s OR flag_bit f"
  using turn_on_masks [of f s] by (cases f) (simp_all add: masks_def)

lemma flag_mask_turn_off: "flag_mask f (snd (turn_off f s)) = flag_mask f s AND NOT (flag_bit f)"
  using turn_off_masks [of f s] by (cases f) (simp_all add: masks_def)

lemma on_off_restores:
  assumes "flag_mask f s AND flag_bit f = 0"
  shows "masks (snd (turn_off f (snd (turn_on f s)))) = masks s"
  using assms set_clear_restores [of "flag_mask f s" "flag_bit f"]
    turn_on_masks [of f s] turn_off_masks [of f "snd (turn_on f s)"]
  by (cases f) (simp_all add: masks_def)

lemma off_on_restores:
  assumes "flag_mask f s AND flag_bit f = flag_bit f"
  shows "masks (snd (turn_on f (snd (turn_off f s)))) = masks s"
  using assms clear_set_restores [of "flag_mask f s" "flag_bit f"]
    turn_off_masks [of f s] turn_on_masks [of f "snd (turn_off f s)"]
  by (cases f) (simp_all add: masks_def)

lemma turn_on_working:
  "working s \<Longrightarrow> fst (turn_on f s) = Some True \<and> trace (snd (turn_on f s)) =
     trace s @ frame_open s
     @ [frame_byte s 254, frame_byte s (flag_base f OR (flag_mask f s OR flag_bit f))]
     @ frame_close s @ [Delay 50]"
  by (cases f) (simp_all add: toggle_defs Let_def specialCommand_working)

lemma turn_off_working:
  "working s \<Longrightarrow> fst (turn_off f s) = Some True \<and> trace (snd (turn_off f s)) =
     trace s @ frame_open s
     @ [frame_byte s 254, frame_byte s (flag_base f OR (flag_mask f s AND NOT (flag_bit f)))]
     @ frame_close s @ [Delay 50]"
  by (cases f) (simp_all add: toggle_defs Let_def specialCommand_working)

subsection \<open>The display-on bit in the slow backlight form\<close>









lemma demo_i2c_fail_answers:
  "answers demo_i2c_fail k = (k \<noteq> 3)" "displayControl demo_i2c_fail = 4"
  by (simp_all add: answers_def demo_i2c_fail_eval fails_at_def)
    (simp add: demo_i2c_fail_def begin_I2C_def evolves_fields [OF evolves_init] SerLCD_def)


subsection \<open>Stopping at the first failure\<close>

lemma outcome_clean_append:
  "\<not> list_ex failed es1 \<Longrightarrow> outcome r es2 \<Longrightarrow> outcome r (es1 @ es2)"
  by (auto simp: outcome_def butlast_append list_ex_iff dest: in_set_butlastD)

lemma follows_trace: "trace s = trace t \<Longrightarrow> follows t x \<Longrightarrow> follows s x"
  by (simp add: follows_def)

lemma follows_return [simp]: "follows s (Some True, s)" "follows s (None, s)"
  by (simp_all add: follows_def outcome_def)

lemma follows_delay [simp]: "follows s (Some True, delay n s)"
  by (simp add: follows_def outcome_def delay_def emit_def)

lemma follows_beginTransmission: "follows s (beginTransmission s)"
  by (auto simp: follows_def outcome_def beginTransmission_def i2c_call_def Let_def emit_def
      delay_def)

lemma follows_transmit: "follows s (transmit b s)"
  by (auto simp: follows_def outcome_def transmit_def i2c_call_def Let_def emit_def)

lemma follows_endTransmission: "follows s (endTransmission s)"
  by (auto simp: follows_def outcome_def endTransmission_def i2c_call_def Let_def emit_def
      delay_def)

lemmas follows_prims = follows_beginTransmission follows_transmit follows_endTransmission

lemma follows_on_true:
  assumes "follows s x" and "\<And>s1. follows s1 (G s1)"
  shows "follows s (on_true x G)"
proof -
  obtain r s1 where x: "x = (r, s1)" by (cases x)
  show ?thesis
  proof (cases "r = Some True")
    case True
    from assms(1) x True obtain es1 where 1: "trace s1 = trace s @ es1" "\<not> list_ex failed es1"
      by (auto simp: follows_def outcome_def)
    from assms(2) [of s1] obtain es2 where
      2: "trace (snd (G s1)) = trace s1 @ es2" "outcome (fst (G s1)) es2"
      by (auto simp: follows_def)
    from 1 2 have "trace (snd (G s1)) = trace s @ (es1 @ es2)"
      "outcome (fst (G s1)) (es1 @ es2)"
      by (simp_all add: outcome_clean_append)
    then have "follows s (G s1)"
      unfolding follows_def by blast
    with x True show ?thesis by simp
  next
    case False
    with x have "on_true x G = x"
      by (cases r) (auto simp: on_true_def)
    with assms(1) show ?thesis by simp
  qed
qed

lemma follows_and_chain:
  "(\<And>f s. f \<in> set fs \<Longrightarrow> follows s (f s)) \<Longrightarrow> follows s (and_chain fs s)"
proof (induction fs arbitrary: s)
  case Nil
  then show ?case by (simp add: and_chain_Nil)
next
  case (Cons f fs)
  show ?case
    unfolding and_chain_Cons
    by (rule follows_on_true) (simp_all add: Cons)
qed

lemma follows_specialCommand: "follows s (specialCommand c s)"
  unfolding specialCommand_def on_true_fold
  by (rule follows_on_true, rule follows_and_chain) (auto simp: follows_prims)

lemma follows_setCursor: "follows s (setCursor col row s)"
  by (simp add: setCursor_byte follows_specialCommand)

lemma follows_createChar_loop: "follows s (createChar_loop n i cm s)"
proof (induction n arbitrary: i s)
  case 0
  then show ?case by simp
next
  case (Suc n)
  show ?case
  proof (cases "i < length cm")
    case True
    have "follows s (on_true (transmit (cm ! i) s) (createChar_loop n (Suc i) cm))"
      by (rule follows_on_true) (simp_all add: follows_prims Suc)
    with True show ?thesis by (simp add: on_true_fold)
  next
    case False
    then show ?thesis by simp
  qed
qed

lemma follows_createChar: "follows s (createChar loc cm s)"
proof -
  have e: "follows s1 (on_true (endTransmission s1) (\<lambda>s4. (Some True, delay 50 s4)))" for s1
    by (rule follows_on_true) (simp_all add: follows_prims)
  have l: "follows s1 (on_true (createChar_loop 8 0 cm s1)
      (\<lambda>s3. on_true (endTransmission s3) (\<lambda>s4. (Some True, delay 50 s4))))" for s1
    by (rule follows_on_true) (simp_all add: follows_createChar_loop e)
  have c: "follows s1 (on_true (and_chain [transmit 0x7C, transmit (27 + (loc AND 7))] s1)
      (\<lambda>s2. on_true (createChar_loop 8 0 cm s2)
        (\<lambda>s3. on_true (endTransmission s3) (\<lambda>s4. (Some True, delay 50 s4)))))" for s1
    by (rule follows_on_true, rule follows_and_chain) (auto simp: follows_prims l)
  show ?thesis
    unfolding createChar_def Let_def on_true_fold
    by (rule follows_on_true) (simp_all add: follows_prims c)
qed

lemma follows_setBacklight: "follows s (setBacklight r g b s)"
proof -
  have 3: "follows s3 (on_true
      (and_chain [transmit 254, transmit (8 OR (displayControl s3 OR 4)), endTransmission]
         (s3\<lparr>displayControl := displayControl s3 OR 4\<rparr>))
      (\<lambda>s5. (Some True, delay 50 s5)))" for s3
  proof (rule follows_on_true)
    show "follows s3 (and_chain [transmit 254, transmit (8 OR (displayControl s3 OR 4)),
        endTransmission] (s3\<lparr>displayControl := displayControl s3 OR 4\<rparr>))"
      by (rule follows_trace [OF _ follows_and_chain]) (auto simp: follows_prims)
  qed simp
  have 2: "follows s1 (on_true
      (and_chain [transmit 254, transmit (8 OR (displayControl s1 AND NOT 4)), transmit 0x7C,
          transmit (red_level r), transmit 0x7C, transmit (green_level g), transmit 0x7C,
          transmit (blue_level b)]
         (s1\<lparr>displayControl := displayControl s1 AND NOT 4\<rparr>))
      (\<lambda>s3. on_true
        (and_chain [transmit 254, transmit (8 OR (displayControl s3 OR 4)), endTransmission]
           (s3\<lparr>displayControl := displayControl s3 OR 4\<rparr>))
        (\<lambda>s5. (Some True, delay 50 s5))))" for s1
  proof (rule follows_on_true)
    show "follows s1 (and_chain [transmit 254, transmit (8 OR (displayControl s1 AND NOT 4)),
        transmit 0x7C, transmit (red_level r), transmit 0x7C, transmit (green_level g),
        transmit 0x7C, transmit (blue_level b)]
        (s1\<lparr>displayControl := displayControl s1 AND NOT 4\<rparr>))"
      by (rule follows_trace [OF _ follows_and_chain]) (auto simp: follows_prims)
  qed (rule 3)
  have "follows s (on_true (beginTransmission s) (\<lambda>s1. on_true
      (and_chain [transmit 254, transmit (8 OR (displayControl s1 AND NOT 4)), transmit 0x7C,
          transmit (red_level r), transmit 0x7C, transmit (green_level g), transmit 0x7C,
          transmit (blue_level b)]
         (s1\<lparr>displayControl := displayControl s1 AND NOT 4\<rparr>))
      (\<lambda>s3. on_true
        (and_chain [transmit 254, transmit (8 OR (displayControl s3 OR 4)), endTransmission]
           (s3\<lparr>displayControl := displayControl s3 OR 4\<rparr>))
        (\<lambda>s5. (Some True, delay 50 s5)))))"
    by (rule follows_on_true [OF follows_beginTransmission 2])
  then show ?thesis
    by (simp add: setBacklight_def Let_def on_true_fold)
qed

lemma follows_stop:
  assumes "follows s x" and "k < length (emitted s (snd x))" and "failed (emitted s (snd x) ! k)"
  shows "trace (snd x) = trace s @ emitted s (snd x) \<and> length (emitted s (snd x)) = Suc k
    \<and> fst x = Some False"
proof -
  from assms(1) obtain es where es: "trace (snd x) = trace s @ es" "outcome (fst x) es"
    by (auto simp: follows_def)
  then have em: "emitted s (snd x) = es" by simp
  with assms have k: "k < length es" "failed (es ! k)" by simp_all
  then have "list_ex failed es"
    by (auto simp: list_ex_iff)
  with es(2) have f: "fst x = Some False" "es \<noteq> []" "\<not> list_ex failed (butlast es)"
    by (auto simp: outcome_def split: if_splits)
  have "\<not> k < length (butlast es)"
  proof
    assume "k < length (butlast es)"
    then have "butlast es ! k \<in> set (butlast es)" "butlast es ! k = es ! k"
      by (rule nth_mem, rule nth_butlast)
    with k f show False by (auto simp: list_ex_iff)
  qed
  with k have "length es = Suc k" by simp
  with es em f show ?thesis by simp
qed

lemma createChar_loop_numeral:
  "createChar_loop (numeral n) i cm s =
     (if i < length cm
      then on_true (transmit (cm ! i) s) (createChar_loop (pred_numeral n) (Suc i) cm)
      else (None, s))"
  "createChar_loop 1 i cm s =
     (if i < length cm
      then on_true (transmit (cm ! i) s) (\<lambda>s'. (Some True, s'))
      else (None, s))"
  by (simp_all add: numeral_eq_Suc on_true_fold)

lemma demo_i2c_fail_glyph:
  "emitted demo_i2c_fail (snd (createChar 9 [1, 2, 3, 4, 5, 6, 7, 8] demo_i2c_fail)) =
     [I2C_beginTransmission 0x72 True, I2C_transmit 0x7C True, I2C_transmit 28 True,
      I2C_transmit 1 False]"
  by (simp add: createChar_def Let_def chain_simps i2c_prims demo_i2c_fail_eval fails_at_def
      createChar_loop_numeral)

lemma demo_i2c_fail_cursor:
  "emitted demo_i2c_fail (snd (setCursor 5 2 demo_i2c_fail)) =
     [I2C_beginTransmission 0x72 True, I2C_transmit 254 True, I2C_transmit 0x99 True,
      I2C_endTransmission False]"
  by (simp add: setCursor_byte specialCommand_def chain_simps i2c_prims demo_i2c_fail_eval
      fails_at_def row_offsets_def)

lemma demo_i2c_fail_backlight:
  "emitted demo_i2c_fail (snd (setBacklight 255 255 255 demo_i2c_fail)) =
     [I2C_beginTransmission 0x72 True, I2C_transmit 254 True, I2C_transmit 8 True,
      I2C_transmit 0x7C False]"
  by (simp add: setBacklight_def Let_def chain_simps i2c_prims demo_i2c_fail_eval
      demo_i2c_fail_answers fails_at_def)

section \<open>The claims\<close>

text \<open>
  Claim C1. In the custom glyph write, the slow backlight form and the cursor set, when
  the \<open>k\<close>-th step of the sequence is a transport primitive that fails, that step is the
  last thing the operation does (nothing is sent after it) and the operation returns false.
\<close>

theorem failure_stops_sequence:
  assumes "op \<in> {createChar location charmap, setBacklight r g b, setCursor col row}"
    and "k < length (emitted s (snd (op s)))"
    and "failed (emitted s (snd (op s)) ! k)"
  shows "trace (snd (op s)) = trace s @ emitted s (snd (op s))
    \<and> length (emitted s (snd (op s))) = Suc k
    \<and> fst (op s) = Some False"
proof -
  from assms(1) have "op = createChar location charmap \<or> op = setBacklight r g b
      \<or> op = setCursor col row"
    by simp
  then have "follows s (op s)"
    by (elim disjE) (simp_all only: follows_createChar follows_setBacklight follows_setCursor)
  from follows_stop [OF this assms(2,3)] show ?thesis .
qed

theorem failure_stops_sequence_witness:
  "emitted demo_i2c_fail (snd (createChar 9 [1, 2, 3, 4, 5, 6, 7, 8] demo_i2c_fail)) =
     [I2C_beginTransmission 0x72 True, I2C_transmit 0x7C True, I2C_transmit 28 True,
      I2C_transmit 1 False]
   \<and> fst (createChar 9 [1, 2, 3, 4, 5, 6, 7, 8] demo_i2c_fail) = Some False
   \<and> emitted demo_i2c_fail (snd (setBacklight 255 255 255 demo_i2c_fail)) =
     [I2C_beginTransmission 0x72 True, I2C_transmit 254 True, I2C_transmit 8 True,
      I2C_transmit 0x7C False]
   \<and> fst (setBacklight 255 255 255 demo_i2c_fail) = Some False
   \<and> emitted demo_i2c_fail (snd (setCursor 5 2 demo_i2c_fail)) =
     [I2C_beginTransmission 0x72 True, I2C_transmit 254 True, I2C_transmit 0x99 True,
      I2C_endTransmission False]
   \<and> fst (setCursor 5 2 demo_i2c_fail) = Some False
   \<and> failed (emitted demo_i2c_fail (snd (createChar 9 [1, 2, 3, 4, 5, 6, 7, 8] demo_i2c_fail)) ! 3)
   \<and> failed (emitted demo_i2c_fail (snd (setBacklight 255 255 255 demo_i2c_fail)) ! 3)
   \<and> failed (emitted demo_i2c_fail (snd (setCursor 5 2 demo_i2c_fail)) ! 3)"
proof -
  let ?g = "createChar 9 [1, 2, 3, 4, 5, 6, 7, 8]"
  let ?b = "setBacklight 255 255 255"
  let ?c = "setCursor 5 2"
  have g: "fst (?g demo_i2c_fail) = Some False"
    by (rule failure_stops_sequence [of ?g 9 "[1, 2, 3, 4, 5, 6, 7, 8]" 255 255 255 5 2 3
          demo_i2c_fail, THEN conjunct2, THEN conjunct2])
      (simp_all add: demo_i2c_fail_glyph)
  have b: "fst (?b demo_i2c_fail) = Some False"
    by (rule failure_stops_sequence [of ?b 9 "[1, 2, 3, 4, 5, 6, 7, 8]" 255 255 255 5 2 3
          demo_i2c_fail, THEN conjunct2, THEN conjunct2])
      (simp_all add: demo_i2c_fail_backlight)
  have c: "fst (?c demo_i2c_fail) = Some False"
    by (rule failure_stops_sequence [of ?c 9 "[1, 2, 3, 4, 5, 6, 7, 8]" 255 255 255 5 2 3
          demo_i2c_fail, THEN conjunct2, THEN conjunct2])
      (simp_all add: demo_i2c_fail_cursor)
  have f: "failed (emitted demo_i2c_fail (snd (?g demo_i2c_fail)) ! 3)"
    "failed (emitted demo_i2c_fail (snd (?b demo_i2c_fail)) ! 3)"
    "failed (emitted demo_i2c_fail (snd (?c demo_i2c_fail)) ! 3)"
    by (simp_all add: demo_i2c_fail_glyph demo_i2c_fail_backlight demo_i2c_fail_cursor)
  show ?thesis
    by (intro conjI demo_i2c_fail_glyph demo_i2c_fail_backlight demo_i2c_fail_cursor g b c f)
qed

text \<open>
  Claim C2. On the serial transport \<^verbatim>\<open>transmit\<close> writes the byte and returns true, but
  \<^verbatim>\<open>beginTransmission\<close> and \<^verbatim>\<open>endTransmission\<close> reach the end of their bodies without
  a \<^verbatim>\<open>return\<close> statement, so they give no value instead of true.
\<close>

theorem serial_frame_returns_nothing:
  "fst (beginTransmission (begin_Stream (SerLCD always_ok))) = None
   \<and> fst (endTransmission (begin_Stream (SerLCD always_ok))) = None
   \<and> fst (transmit 65 (begin_Stream (SerLCD always_ok))) = Some True
   \<and> trace (snd (transmit 65 (begin_Stream (SerLCD always_ok)))) = [Serial_write 65]"
  by (simp add: begin_Stream_def SerLCD_def init_def chain_simps beginTransmission_def
      endTransmission_def transmit_def emit_def)

text \<open>
  Claim C3. \<^verbatim>\<open>setAddress(new_addr)\<close> stores the new address in the shadow field exactly
  when it returns true, which on I2C is exactly when the five steps (open, setting marker,
  selector 0x19, value, close) all answer OK; otherwise the shadow address keeps its old
  value. The frame of \<^verbatim>\<open>setAddress\<close> itself is opened at the old address, and the next
  frame is opened at the shadow address as it is after the call.
\<close>

theorem setAddress_updates_on_success:
  "i2cAddr (snd (setAddress a s)) = (if fst (setAddress a s) = Some True then a else i2cAddr s)
   \<and> (i2cPort s \<longrightarrow>
        fst (setAddress a s) = Some (\<forall>k<5. i2cStatus s (i2cCalls s + k))
        \<and> (\<exists>ok. emitted (snd (setAddress a s)) (snd (beginTransmission (snd (setAddress a s)))) =
              [I2C_beginTransmission
                 (if \<forall>k<5. i2cStatus s (i2cCalls s + k) then a else i2cAddr s) ok]))
   \<and> (working s \<longrightarrow>
        fst (setAddress a s) = Some True
        \<and> trace (snd (setAddress a s)) =
            trace s @ frame_open s
            @ map (frame_byte s) [SETTING_COMMAND, ADDRESS_COMMAND, a]
            @ frame_close s @ [Delay 50])"
proof -
  have "\<exists>ok. emitted (snd (setAddress a s)) (snd (beginTransmission (snd (setAddress a s)))) =
      [I2C_beginTransmission (if \<forall>k<5. i2cStatus s (i2cCalls s + k) then a else i2cAddr s) ok]"
    if p: "i2cPort s"
  proof -
    let ?s' = "snd (setAddress a s)"
    have "i2cPort ?s'" using p by (simp add: setAddress_i2cPort)
    from beginTransmission_i2c_trace [OF this]
    have "emitted ?s' (snd (beginTransmission ?s')) =
        [I2C_beginTransmission (i2cAddr ?s') (i2cStatus ?s' (i2cCalls ?s'))]"
      by simp
    moreover have "i2cAddr ?s' = (if \<forall>k<5. i2cStatus s (i2cCalls s + k) then a else i2cAddr s)"
      unfolding setAddress_shadow setAddress_i2c_result [OF p] by simp
    ultimately show ?thesis by auto
  qed
  then show ?thesis
    by (simp add: setAddress_shadow [symmetric] setAddress_i2c_result setAddress_working)
qed

theorem setAddress_updates_on_success_witness:
  "working demo_i2c \<and> i2cPort demo_i2c
   \<and> fst (setAddress 0x71 demo_i2c) = Some True
   \<and> i2cAddr (snd (setAddress 0x71 demo_i2c)) = 0x71
   \<and> emitted demo_i2c (snd (setAddress 0x71 demo_i2c)) =
        [I2C_beginTransmission 0x72 True, I2C_transmit 0x7C True, I2C_transmit 0x19 True,
         I2C_transmit 0x71 True, I2C_endTransmission True, Delay 50]
   \<and> (\<exists>ok. emitted (snd (setAddress 0x71 demo_i2c))
              (snd (beginTransmission (snd (setAddress 0x71 demo_i2c)))) =
            [I2C_beginTransmission 0x71 ok])
   \<and> i2cPort demo_i2c_fail
   \<and> fst (setAddress 0x71 demo_i2c_fail) = Some False
   \<and> i2cAddr (snd (setAddress 0x71 demo_i2c_fail)) = 0x72
   \<and> (\<exists>ok. emitted (snd (setAddress 0x71 demo_i2c_fail))
              (snd (beginTransmission (snd (setAddress 0x71 demo_i2c_fail)))) =
            [I2C_beginTransmission 0x72 ok])"
  using setAddress_updates_on_success [of "0x71" demo_i2c]
    setAddress_updates_on_success [of "0x71" demo_i2c_fail]
  by (simp add: demo_i2c_fail_eval always_ok_def fails_at_def third_of_five_fails)

text \<open>
  Claim C4, as the code has it. Each flag operation sets or clears its bit in the shadow
  mask and, on a transport whose steps succeed, sends one special command whose byte is the
  command base or-ed with the whole mask as it is after the change. The operations set and
  clear, they do not flip: switching a flag on and then off restores both masks when the
  flag's bit was clear before, and switching it off and then on restores them when the
  bit was set before.
\<close>

theorem flag_operations_send_full_mask:
  "flag_mask f (snd (turn_on f s)) = flag_mask f s OR flag_bit f
   \<and> flag_mask f (snd (turn_off f s)) = flag_mask f s AND NOT (flag_bit f)
   \<and> (working s \<longrightarrow>
        fst (turn_on f s) = Some True
        \<and> trace (snd (turn_on f s)) =
            trace s @ frame_open s
            @ [frame_byte s SPECIAL_COMMAND,
               frame_byte s (flag_base f OR flag_mask f (snd (turn_on f s)))]
            @ frame_close s @ [Delay 50]
        \<and> fst (turn_off f s) = Some True
        \<and> trace (snd (turn_off f s)) =
            trace s @ frame_open s
            @ [frame_byte s SPECIAL_COMMAND,
               frame_byte s (flag_base f OR flag_mask f (snd (turn_off f s)))]
            @ frame_close s @ [Delay 50])
   \<and> (flag_mask f s AND flag_bit f = 0 \<longrightarrow>
        masks (snd (turn_off f (snd (turn_on f s)))) = masks s)
   \<and> (flag_mask f s AND flag_bit f = flag_bit f \<longrightarrow>
        masks (snd (turn_on f (snd (turn_off f s)))) = masks s)"
  using turn_on_working [of s f] turn_off_working [of s f]
  by (simp add: flag_mask_turn_on flag_mask_turn_off on_off_restores off_on_restores)

theorem flag_operations_send_full_mask_witness:
  "working demo_i2c
   \<and> flag_mask CursorOn demo_i2c AND flag_bit CursorOn = 0
   \<and> displayControl (snd (cursor demo_i2c)) = 6
   \<and> emitted demo_i2c (snd (cursor demo_i2c)) =
        [I2C_beginTransmission 0x72 True, I2C_transmit 254 True, I2C_transmit 14 True,
         I2C_endTransmission True, Delay 50]
   \<and> masks (snd (noCursor (snd (cursor demo_i2c)))) = masks demo_i2c
   \<and> flag_mask DisplayOn demo_i2c AND flag_bit DisplayOn = flag_bit DisplayOn
   \<and> masks (snd (display (snd (noDisplay demo_i2c)))) = masks demo_i2c"
  using flag_operations_send_full_mask [of CursorOn demo_i2c]
    flag_operations_send_full_mask [of DisplayOn demo_i2c]
  by simp

theorem opposite_toggles_counterexample:
  "displayControl (snd (noDisplay (snd (display demo_i2c)))) \<noteq> displayControl demo_i2c"
  by (simp add: toggle_defs Let_def specialCommand_masks)



text \<open>
  Claim C6. On a transport whose steps all succeed, the repeat-count special command
  opens one frame, sends the marker and the command byte exactly \<open>count\<close> times, closes
  the frame and waits 50 once at the end; with a count of 0 it opens, closes and waits
  without sending a pair. The four repeated scroll and cursor-move operations are this
  command with their own command byte.
\<close>

theorem specialCommand_count_frame:
  "working s \<longrightarrow>
     fst (specialCommand_count c n s) = Some True
     \<and> trace (snd (specialCommand_count c n s)) =
         trace s @ frame_open s
         @ concat (replicate (unat n) [frame_byte s SPECIAL_COMMAND, frame_byte s c])
         @ frame_close s @ [Delay 50]
     \<and> count_list (emitted s (snd (specialCommand_count c n s))) (Delay 50) = 1
     \<and> trace (snd (specialCommand_count c 0 s)) =
         trace s @ frame_open s @ frame_close s @ [Delay 50]
     \<and> scrollDisplayLeft_count n s = specialCommand_count 0x18 n s
     \<and> scrollDisplayRight_count n s = specialCommand_count 0x1C n s
     \<and> moveCursorLeft_count n s = specialCommand_count 0x10 n s
     \<and> moveCursorRight_count n s = specialCommand_count 0x14 n s"
  by (simp add: specialCommand_count_working no_settle_in_pairs no_settle_in_frame
      scrollDisplayLeft_count_def
      scrollDisplayRight_count_def moveCursorLeft_count_def moveCursorRight_count_def)

theorem specialCommand_count_frame_witness:
  "working demo_spi
   \<and> fst (scrollDisplayLeft_count 2 demo_spi) = Some True
   \<and> emitted demo_spi (snd (scrollDisplayLeft_count 2 demo_spi)) =
        [SPI_beginTransaction (SPISettings 100000 True 0), DigitalWrite 9 False, Delay 10,
         SPI_transfer 254, SPI_transfer 0x18, SPI_transfer 254, SPI_transfer 0x18,
         DigitalWrite 9 True, SPI_endTransaction, Delay 10, Delay 50]
   \<and> emitted demo_spi (snd (specialCommand_count 0x18 0 demo_spi)) =
        [SPI_beginTransaction (SPISettings 100000 True 0), DigitalWrite 9 False, Delay 10,
         DigitalWrite 9 True, SPI_endTransaction, Delay 10, Delay 50]"
  using specialCommand_count_frame [of demo_spi "0x18" 2]
  by (simp add: replicate_two)

text \<open>
  Claim C7. In the slow backlight form the three inputs are scaled linearly, each into its
  own range: 0 gives the base (128, 158, 188), 255 gives the top (157, 187, 217), a larger
  input never gives a smaller level, and these levels are the bytes sent after the three
  setting markers.
\<close>

theorem backlight_levels:
  "red_level 0 = 128 \<and> red_level 255 = 157
   \<and> green_level 0 = 158 \<and> green_level 255 = 187
   \<and> blue_level 0 = 188 \<and> blue_level 255 = 217
   \<and> uint (red_level x) = 128 + uint x * 29 div 255
   \<and> uint (green_level x) = 158 + uint x * 29 div 255
   \<and> uint (blue_level x) = 188 + uint x * 29 div 255
   \<and> (x \<le> y \<longrightarrow> red_level x \<le> red_level y \<and> green_level x \<le> green_level y
         \<and> blue_level x \<le> blue_level y)
   \<and> (working s \<longrightarrow>
         trace (snd (setBacklight r g b s)) =
           trace s @ frame_open s
           @ map (frame_byte s)
               [SPECIAL_COMMAND, LCD_DISPLAYCONTROL OR (displayControl s AND NOT LCD_DISPLAYON),
                SETTING_COMMAND, red_level r,
                SETTING_COMMAND, green_level g,
                SETTING_COMMAND, blue_level b,
                SPECIAL_COMMAND,
                LCD_DISPLAYCONTROL OR (displayControl s AND NOT LCD_DISPLAYON OR LCD_DISPLAYON)]
           @ frame_close s @ [Delay 50])"
  by (simp add: level_ends level_uint level_mono setBacklight_working)

theorem backlight_levels_witness:
  "(100 :: byte) \<le> 200 \<and> working demo_i2c
   \<and> red_level 100 = 139 \<and> red_level 200 = 150 \<and> red_level 100 \<le> red_level 200
   \<and> green_level 100 \<le> green_level 200 \<and> blue_level 100 \<le> blue_level 200
   \<and> emitted demo_i2c (snd (setBacklight 0 100 255 demo_i2c)) =
        [I2C_beginTransmission 0x72 True,
         I2C_transmit 254 True, I2C_transmit 8 True,
         I2C_transmit 0x7C True, I2C_transmit 128 True,
         I2C_transmit 0x7C True, I2C_transmit 169 True,
         I2C_transmit 0x7C True, I2C_transmit 217 True,
         I2C_transmit 254 True, I2C_transmit 12 True,
         I2C_endTransmission True, Delay 50]"
  using backlight_levels [of 100 200 demo_i2c 0 100 255]
  by (simp add: red_level_def green_level_def blue_level_def map_range_def)




text \<open>
  Claim C9. On a transport whose steps all succeed, \<^verbatim>\<open>createChar(location, charmap)\<close>
  with eight glyph bytes opens one frame, sends the setting marker, the selector
  \<open>27 + (location AND 7)\<close> and the eight bytes in order, closes the frame and waits 50;
  the slot is below 8, and for location 9 the selector is 28.
\<close>

theorem createChar_frame:
  "unat (location AND 7) < 8
   \<and> (working s \<and> length charmap = 8 \<longrightarrow>
        fst (createChar location charmap s) = Some True
        \<and> trace (snd (createChar location charmap s)) =
            trace s @ frame_open s
            @ map (frame_byte s) ([SETTING_COMMAND, 27 + (location AND 7)] @ charmap)
            @ frame_close s @ [Delay 50]
        \<and> trace (snd (createChar 9 charmap s)) =
            trace s @ frame_open s
            @ map (frame_byte s) ([SETTING_COMMAND, 28] @ charmap)
            @ frame_close s @ [Delay 50])"
proof -
  have "location AND 7 \<le> 7" by (rule word_and_le1)
  then have "unat (location AND 7) \<le> unat (7 :: byte)" by (simp only: word_le_nat_alt)
  then have "unat (location AND 7) < 8" by simp
  then show ?thesis
    by (simp add: createChar_working)
qed

theorem createChar_frame_witness:
  "working demo_i2c \<and> length [1, 2, 3, 4, 5, 6, 7, 8 :: byte] = 8
   \<and> fst (createChar 9 [1, 2, 3, 4, 5, 6, 7, 8] demo_i2c) = Some True
   \<and> emitted demo_i2c (snd (createChar 9 [1, 2, 3, 4, 5, 6, 7, 8] demo_i2c)) =
        [I2C_beginTransmission 0x72 True, I2C_transmit 0x7C True, I2C_transmit 28 True,
         I2C_transmit 1 True, I2C_transmit 2 True, I2C_transmit 3 True, I2C_transmit 4 True,
         I2C_transmit 5 True, I2C_transmit 6 True, I2C_transmit 7 True, I2C_transmit 8 True,
         I2C_endTransmission True, Delay 50]"
  using createChar_frame [of 9 demo_i2c "[1, 2, 3, 4, 5, 6, 7, 8]"]
  by simp

text \<open>
  Claim C10. Starting from the constructed object and running any sequence of public
  operations, under any answers of the I2C library, the shadow \<open>displayControl\<close> mask
  holds only the display-on, cursor-on and blink-on bits and the shadow \<open>displayMode\<close>
  mask holds only the entry-left and shift-increment bits; every single operation keeps
  this invariant.
\<close>

theorem shadow_masks_invariant:
  "displayControl (run ops (SerLCD bus)) AND NOT 0x07 = 0
   \<and> displayMode (run ops (SerLCD bus)) AND NOT 0x03 = 0
   \<and> (shadow_inv s \<longrightarrow> shadow_inv (exec op s))"
  using shadow_inv_run [OF shadow_inv_SerLCD, of ops bus] shadow_inv_exec [of s op]
  by (simp add: shadow_inv_def)

theorem shadow_masks_invariant_witness:
  "displayControl (run demo_ops (SerLCD (fails_at 14))) AND NOT 0x07 = 0
   \<and> displayMode (run demo_ops (SerLCD (fails_at 14))) AND NOT 0x03 = 0
   \<and> displayControl (run demo_ops (SerLCD (fails_at 14))) = 2
   \<and> displayMode (run demo_ops (SerLCD (fails_at 14))) = 1
   \<and> shadow_inv (SerLCD (fails_at 14))
   \<and> shadow_inv (exec (SetBacklight 1 2 3) (SerLCD (fails_at 14)))"
proof -
  have "shadow_inv (SerLCD (fails_at 14))"
    by (simp add: shadow_inv_def SerLCD_def)
  with shadow_masks_invariant [of demo_ops "fails_at 14" "SerLCD (fails_at 14)" "SetBacklight 1 2 3"]
  show ?thesis
    by (simp add: demo_eval)
qed

end
